theory Spec2Isabelle
  imports Complex_Main "HOL-Library.Multiset" "HOL-Library.Product_Lexorder" "HOL-Library.Sublist"
begin

section \<open>Python and SQL building blocks\<close>

text \<open>
  The two services of \<^verbatim>\<open>ai-service/app/services\<close> are embedded as pure functions over an
  explicit database value. Exceptions are values of \<open>error + 'a\<close> (\<open>Inl\<close> is the raised
  exception). Python \<^verbatim>\<open>int\<close> is \<open>int\<close>; a Python \<^verbatim>\<open>float\<close> is a real, computed exactly except in
  \<open>suggest_price_range_float\<close>, where every operation is rounded to double precision.
\<close>

datatype error = LoadError | DatabaseError | TypeError | IndexError | LibraryError

type_synonym vector = "real list"

text \<open>The slice \<^verbatim>\<open>xs[:n]\<close>; a negative \<open>n\<close> counts from the end.\<close>

definition py_take :: "int \<Rightarrow> 'a list \<Rightarrow> 'a list" where
  "py_take n xs = (if 0 \<le> n then take (nat n) xs else take (length xs - nat (- n)) xs)"

text \<open>The subscript \<^verbatim>\<open>xs[i]\<close>; a negative \<open>i\<close> counts from the end, out of range raises.\<close>

definition py_nth :: "'a list \<Rightarrow> int \<Rightarrow> error + 'a" where
  "py_nth xs i =
     (if 0 \<le> i \<and> i < int (length xs) then Inr (xs ! nat i)
      else if i < 0 \<and> - int (length xs) \<le> i then Inr (xs ! nat (int (length xs) + i))
      else Inl IndexError)"

text \<open>\<^verbatim>\<open>' '.join(words)\<close>.\<close>

fun join_space :: "string list \<Rightarrow> string" where
  "join_space [] = []"
| "join_space [w] = w"
| "join_space (w # ws) = w @ '' '' @ join_space ws"

text \<open>A list comprehension whose element expression may raise: the first exception wins.\<close>

fun map_err :: "('a \<Rightarrow> error + 'b) \<Rightarrow> 'a list \<Rightarrow> error + 'b list" where
  "map_err f [] = Inr []"
| "map_err f (x # xs) =
     (case f x of
        Inl e \<Rightarrow> Inl e
      | Inr y \<Rightarrow> (case map_err f xs of Inl e \<Rightarrow> Inl e | Inr ys \<Rightarrow> Inr (y # ys)))"

text \<open>
  A stable descending sort: \<^verbatim>\<open>sorted(xs, key=k, reverse=True)\<close>, which keeps equal keys in
  their original order. The same function stands for SQL \<^verbatim>\<open>ORDER BY k DESC\<close>, where the order
  of ties is the table order.
\<close>

fun insert_desc :: "('a \<Rightarrow> 'k::linorder) \<Rightarrow> 'a \<Rightarrow> 'a list \<Rightarrow> 'a list" where
  "insert_desc k x [] = [x]"
| "insert_desc k x (y # ys) = (if k y \<le> k x then x # y # ys else y # insert_desc k x ys)"

definition order_by_desc :: "('a \<Rightarrow> 'k::linorder) \<Rightarrow> 'a list \<Rightarrow> 'a list" where
  "order_by_desc k xs = foldr (insert_desc k) xs []"

text \<open>
  SQL \<^verbatim>\<open>LIMIT n\<close>. The configured database is MySQL, which rejects a negative row count; the
  driver raises.
\<close>

definition sql_limit :: "int \<Rightarrow> 'a list \<Rightarrow> error + 'a list" where
  "sql_limit n rows = (if n < 0 then Inl DatabaseError else Inr (take (nat n) rows))"

text \<open>
  A Python \<^verbatim>\<open>dict\<close> in insertion order is an association list with distinct keys:
  assigning to a present key keeps its position.
\<close>

fun dict_set :: "'k \<Rightarrow> 'v \<Rightarrow> ('k \<times> 'v) list \<Rightarrow> ('k \<times> 'v) list" where
  "dict_set k v [] = [(k, v)]"
| "dict_set k v ((k', v') # kvs) =
     (if k' = k then (k, v) # kvs else (k', v') # dict_set k v kvs)"

text \<open>\<^verbatim>\<open>{k: v for k, v in pairs}\<close>.\<close>

definition dict_of_pairs :: "('k \<times> 'v) list \<Rightarrow> ('k \<times> 'v) list" where
  "dict_of_pairs kvs = fold (\<lambda>(k, v) d. dict_set k v d) kvs []"

text \<open>\<^verbatim>\<open>collections.Counter(xs)\<close>, and \<^verbatim>\<open>Counter.most_common(n)\<close> for \<open>n \<ge> 0\<close>.\<close>

definition Counter :: "'a list \<Rightarrow> ('a \<times> nat) list" where
  "Counter xs =
     fold (\<lambda>x d. dict_set x (case map_of d x of None \<Rightarrow> 1 | Some c \<Rightarrow> c + 1) d) xs []"

definition most_common :: "nat \<Rightarrow> ('a \<times> nat) list \<Rightarrow> ('a \<times> nat) list" where
  "most_common n d = take n (order_by_desc snd d)"


section \<open>Catalog and orders (\<^verbatim>\<open>backend/app/models\<close>)\<close>

datatype product_status = Draft | Active | Inactive | Archived

datatype order_status = Pending | Paid | Processing | Shipped | Delivered | Cancelled | Refunded

record product =
  p_id :: int
  p_title :: string
  p_description :: "string option"
  p_category_id :: int
  p_price :: "real option"
  p_images :: "string list option"
  p_tags :: "string list option"
  p_status :: product_status
  p_sales_count :: int
  p_rating :: real
  p_created_at :: int

record category =
  c_id :: int
  c_name :: string

record order =
  o_id :: int
  o_buyer_id :: int
  o_status :: order_status
  o_created_at :: int

record order_item =
  oi_order_id :: int
  oi_product_id :: int
  oi_quantity :: int

record database =
  products :: "product list"
  categories :: "category list"
  orders :: "order list"
  order_items :: "order_item list"

text \<open>
  \<^verbatim>\<open>query(Product, ...).join(OrderItem).join(Order)\<close>: the rows of the inner join on the two
  foreign keys.
\<close>

definition joined :: "database \<Rightarrow> (product \<times> order_item \<times> order) list" where
  "joined db =
     [(p, item, ord). p \<leftarrow> products db,
                      item \<leftarrow> order_items db, oi_product_id item = p_id p,
                      ord \<leftarrow> orders db, o_id ord = oi_order_id item]"

text \<open>\<^verbatim>\<open>Order.status.in_(["paid", "processing", "shipped", "delivered"])\<close>.\<close>

definition qualifying :: "order_status \<Rightarrow> bool" where
  "qualifying s = (s = Paid \<or> s = Processing \<or> s = Shipped \<or> s = Delivered)"

text \<open>\<^verbatim>\<open>float(x)\<close> on a nullable decimal column: \<^verbatim>\<open>float(None)\<close> raises.\<close>

definition py_float :: "real option \<Rightarrow> error + real" where
  "py_float x = (case x of None \<Rightarrow> Inl TypeError | Some r \<Rightarrow> Inr r)"

text \<open>\<^verbatim>\<open>product.images[0] if product.images else None\<close>.\<close>

definition first_image :: "string list option \<Rightarrow> string option" where
  "first_image imgs = (case imgs of Some (u # _) \<Rightarrow> Some u | _ \<Rightarrow> None)"


section \<open>Recommendation service (\<^verbatim>\<open>recommendation_service.py\<close>)\<close>

record recommendation =
  product_id :: int
  title :: string
  price :: real
  image_url :: "string option"
  score :: real
  reason :: string

text \<open>
  The libraries the service calls are parameters: the sentence encoder, FAISS's in-place
  \<^verbatim>\<open>normalize_L2\<close>, and \<^verbatim>\<open>IndexFlatIP.search\<close> on the stored vectors, which returns
  (score, position) pairs, position \<open>-1\<close> for a missing neighbour, or raises.
\<close>

record externals =
  encode :: "string \<Rightarrow> vector"
  normalize_L2 :: "vector \<Rightarrow> vector"
  index_search :: "vector list \<Rightarrow> vector \<Rightarrow> int \<Rightarrow> error + (real \<times> int) list"

text \<open>A file under \<^verbatim>\<open>VECTOR_DB_PATH\<close>: absent, present but not loadable, or holding a value.\<close>

datatype 'a artifact = Absent | Unreadable | Holds 'a

definition exists_file :: "'a artifact \<Rightarrow> bool" where
  "exists_file f = (f \<noteq> Absent)"

definition load_file :: "'a artifact \<Rightarrow> error + 'a" where
  "load_file f = (case f of Holds x \<Rightarrow> Inr x | _ \<Rightarrow> Inl LoadError)"

text \<open>
  The service object with the two files it reads and writes: \<^verbatim>\<open>product_embeddings.pkl\<close>
  and \<^verbatim>\<open>product_index.faiss\<close>. The index is the list of vectors in position order.
\<close>

record recommendation_service =
  db :: database
  product_embeddings :: "(int \<times> vector) list"
  index :: "vector list option"
  vector_file :: "(int \<times> vector) list artifact"
  index_file :: "vector list artifact"

definition save_vector_db :: "recommendation_service \<Rightarrow> recommendation_service" where
  "save_vector_db self =
     (let self1 = self\<lparr>vector_file := Holds (product_embeddings self)\<rparr>
      in case index self1 of
           Some ix \<Rightarrow> self1\<lparr>index_file := Holds ix\<rparr>
         | None \<Rightarrow> self1)"

text \<open>The text embedded for one product: title, then description and tags when non-empty.\<close>

definition product_text :: "product \<Rightarrow> string" where
  "product_text p =
     (let text1 = p_title p;
          text2 = (case p_description p of
                     Some d \<Rightarrow> if d \<noteq> [] then text1 @ '' '' @ d else text1
                   | None \<Rightarrow> text1)
      in case p_tags p of
           Some ts \<Rightarrow> if ts \<noteq> [] then text2 @ '' '' @ join_space ts else text2
         | None \<Rightarrow> text2)"

definition build_vector_db :: "externals \<Rightarrow> recommendation_service \<Rightarrow> recommendation_service" where
  "build_vector_db ext self =
     (let prods = filter (\<lambda>p. p_status p = Active) (products (db self))
      in if prods = [] then self\<lparr>product_embeddings := [], index := None\<rparr>
         else
           let product_texts = map product_text prods;
               product_ids = map p_id prods;
               embeddings = map (normalize_L2 ext) (map (encode ext) product_texts)
           in save_vector_db
                (self\<lparr>index := Some embeddings,
                      product_embeddings := dict_of_pairs (zip product_ids embeddings)\<rparr>))"

text \<open>
  \<^verbatim>\<open>__init__\<close> followed by \<^verbatim>\<open>_load_or_create_vector_db\<close>: the object is made from the
  database session and what is on disk. Neither load is inside a \<^verbatim>\<open>try\<close>.
\<close>

definition load_or_create_vector_db ::
  "externals \<Rightarrow> database \<Rightarrow> (int \<times> vector) list artifact \<Rightarrow> vector list artifact
     \<Rightarrow> error + recommendation_service" where
  "load_or_create_vector_db ext d vf xf =
     (if exists_file vf \<and> exists_file xf then
        (case load_file vf of
           Inl e \<Rightarrow> Inl e
         | Inr embs \<Rightarrow>
             (case load_file xf of
                Inl e \<Rightarrow> Inl e
              | Inr ix \<Rightarrow>
                  Inr \<lparr>db = d, product_embeddings = embs, index = Some ix,
                       vector_file = vf, index_file = xf\<rparr>))
      else
        Inr (build_vector_db ext
               \<lparr>db = d, product_embeddings = [], index = None,
                vector_file = vf, index_file = xf\<rparr>))"

definition similar_rec :: "product \<Rightarrow> real \<Rightarrow> error + recommendation" where
  "similar_rec p sc =
     (case py_float (p_price p) of
        Inl e \<Rightarrow> Inl e
      | Inr pr \<Rightarrow>
          Inr \<lparr>product_id = p_id p, title = p_title p, price = pr,
               image_url = first_image (p_images p), score = sc,
               reason = ''Similar product''\<rparr>)"

text \<open>
  The loop over \<^verbatim>\<open>zip(scores[0], indices[0])\<close> of \<^verbatim>\<open>get_similar_products\<close>;
  \<open>acc\<close> is \<^verbatim>\<open>similar_products\<close>.
\<close>

fun similar_loop ::
  "database \<Rightarrow> int list \<Rightarrow> int \<Rightarrow> (real \<times> int) list \<Rightarrow> recommendation list
     \<Rightarrow> error + recommendation list" where
  "similar_loop d product_ids pid [] acc = Inr acc"
| "similar_loop d product_ids pid ((sc, idx) # hits) acc =
     (if idx = - 1 then similar_loop d product_ids pid hits acc
      else if idx < int (length product_ids) then
        (case py_nth product_ids idx of
           Inl e \<Rightarrow> Inl e
         | Inr similar_product_id \<Rightarrow>
             if similar_product_id = pid then similar_loop d product_ids pid hits acc
             else
               (case find (\<lambda>p. p_id p = similar_product_id) (products d) of
                  None \<Rightarrow> similar_loop d product_ids pid hits acc
                | Some p \<Rightarrow>
                    (case similar_rec p sc of
                       Inl e \<Rightarrow> Inl e
                     | Inr r \<Rightarrow> similar_loop d product_ids pid hits (acc @ [r]))))
      else similar_loop d product_ids pid hits acc)"

definition get_similar_products ::
  "externals \<Rightarrow> recommendation_service \<Rightarrow> int \<Rightarrow> int \<Rightarrow> error + recommendation list" where
  "get_similar_products ext self pid limit =
     (case map_of (product_embeddings self) pid of
        None \<Rightarrow> Inr []
      | Some product_embedding \<Rightarrow>
          (case index self of
             None \<Rightarrow> Inr []
           | Some ix \<Rightarrow>
               (case index_search ext ix product_embedding (limit + 1) of
                  Inl e \<Rightarrow> Inl e
                | Inr hits \<Rightarrow>
                    (case similar_loop (db self) (map fst (product_embeddings self)) pid hits [] of
                       Inl e \<Rightarrow> Inl e
                     | Inr similar_products \<Rightarrow> Inr (py_take limit similar_products)))))"

text \<open>
  What the index reported, read as (score, product id) pairs: position \<open>i\<close> is the \<open>i\<close>-th key
  of the embedding map; \<open>-1\<close> and positions past the end name no product.
\<close>

definition reported :: "int list \<Rightarrow> (real \<times> int) list \<Rightarrow> (real \<times> int) list" where
  "reported product_ids hits =
     List.map_filter
       (\<lambda>(sc, idx). if idx = - 1 \<or> int (length product_ids) \<le> idx then None
                     else (case py_nth product_ids idx of Inl e \<Rightarrow> None | Inr i \<Rightarrow> Some (sc, i)))
       hits"

text \<open>
  What FAISS guarantees of a search result: every position is \<open>-1\<close> or a real position, and
  no real position is reported twice.
\<close>

definition valid_labels :: "(real \<times> int) list \<Rightarrow> bool" where
  "valid_labels hits =
     (list_all (\<lambda>idx. - 1 \<le> idx) (map snd hits) \<and>
      distinct (filter (\<lambda>idx. idx \<noteq> - 1) (map snd hits)))"

definition category_rec :: "product \<Rightarrow> error + recommendation" where
  "category_rec p =
     (case py_float (p_price p) of
        Inl e \<Rightarrow> Inl e
      | Inr pr \<Rightarrow>
          Inr \<lparr>product_id = p_id p, title = p_title p, price = pr,
               image_url = first_image (p_images p), score = p_rating p,
               reason = ''Top rated in category''\<rparr>)"

definition get_category_recommendations ::
  "recommendation_service \<Rightarrow> int \<Rightarrow> int \<Rightarrow> error + recommendation list" where
  "get_category_recommendations self cid limit =
     (case sql_limit limit
             (order_by_desc (\<lambda>p. (p_rating p, p_sales_count p))
                (filter (\<lambda>p. p_category_id p = cid \<and> p_status p = Active)
                   (products (db self)))) of
        Inl e \<Rightarrow> Inl e
      | Inr rows \<Rightarrow> map_err category_rec rows)"

definition popular_rec :: "product \<Rightarrow> error + recommendation" where
  "popular_rec p =
     (case py_float (p_price p) of
        Inl e \<Rightarrow> Inl e
      | Inr pr \<Rightarrow>
          Inr \<lparr>product_id = p_id p, title = p_title p, price = pr,
               image_url = first_image (p_images p), score = real_of_int (p_sales_count p),
               reason = ''Popular product''\<rparr>)"

definition get_popular_products ::
  "recommendation_service \<Rightarrow> int \<Rightarrow> error + recommendation list" where
  "get_popular_products self limit =
     (case sql_limit limit
             (order_by_desc (\<lambda>p. (p_sales_count p, p_rating p))
                (filter (\<lambda>p. p_status p = Active) (products (db self)))) of
        Inl e \<Rightarrow> Inl e
      | Inr rows \<Rightarrow> map_err popular_rec rows)"

text \<open>
  Python truthiness of an \<^verbatim>\<open>Optional[int]\<close>, as in \<^verbatim>\<open>if category_id:\<close> and
  \<^verbatim>\<open>if not category_id:\<close>: \<^verbatim>\<open>None\<close> and \<open>0\<close> are false.
\<close>

definition truthy :: "int option \<Rightarrow> bool" where
  "truthy c = (case c of None \<Rightarrow> False | Some n \<Rightarrow> n \<noteq> 0)"

text \<open>
  One row of the grouped trending query: the product columns and
  \<^verbatim>\<open>sum(OrderItem.quantity)\<close> over the joined rows of that product id.
\<close>

definition trending_rows ::
  "database \<Rightarrow> int \<Rightarrow> int option \<Rightarrow> (product \<times> int) list" where
  "trending_rows d week_ago cid =
     (let rows = filter (\<lambda>(p, item, ord).
                    week_ago \<le> o_created_at ord \<and> qualifying (o_status ord) \<and>
                    p_status p = Active \<and>
                    (if truthy cid then Some (p_category_id p) = cid else True)) (joined d)
      in map (\<lambda>i. (fst (hd (filter (\<lambda>(p, item, ord). p_id p = i) rows)),
                   sum_list (map (\<lambda>(p, item, ord). oi_quantity item)
                               (filter (\<lambda>(p, item, ord). p_id p = i) rows))))
           (remdups (map (\<lambda>(p, item, ord). p_id p) rows)))"

definition trending_rec :: "product \<times> int \<Rightarrow> error + recommendation" where
  "trending_rec row =
     (case py_float (p_price (fst row)) of
        Inl e \<Rightarrow> Inl e
      | Inr pr \<Rightarrow>
          Inr \<lparr>product_id = p_id (fst row), title = p_title (fst row), price = pr,
               image_url = first_image (p_images (fst row)), score = real_of_int (snd row),
               reason = ''Trending product''\<rparr>)"

text \<open>\<open>now\<close> is \<^verbatim>\<open>datetime.utcnow()\<close> in seconds; seven days are 604800 seconds.\<close>

definition get_trending_products ::
  "recommendation_service \<Rightarrow> int \<Rightarrow> int \<Rightarrow> int option \<Rightarrow> error + recommendation list" where
  "get_trending_products self now limit cid =
     (let week_ago = now - 604800
      in case sql_limit limit (order_by_desc snd (trending_rows (db self) week_ago cid)) of
           Inl e \<Rightarrow> Inl e
         | Inr trending \<Rightarrow> map_err trending_rec trending)"

definition new_arrival_rec :: "product \<Rightarrow> error + recommendation" where
  "new_arrival_rec p =
     (case py_float (p_price p) of
        Inl e \<Rightarrow> Inl e
      | Inr pr \<Rightarrow>
          Inr \<lparr>product_id = p_id p, title = p_title p, price = pr,
               image_url = first_image (p_images p), score = 1,
               reason = ''New arrival''\<rparr>)"

definition get_new_arrivals ::
  "recommendation_service \<Rightarrow> int \<Rightarrow> int option \<Rightarrow> error + recommendation list" where
  "get_new_arrivals self limit cid =
     (case sql_limit limit
             (order_by_desc p_created_at
                (filter (\<lambda>p. p_status p = Active \<and>
                              (if truthy cid then Some (p_category_id p) = cid else True))
                   (products (db self)))) of
        Inl e \<Rightarrow> Inl e
      | Inr rows \<Rightarrow> map_err new_arrival_rec rows)"

text \<open>The purchase-history query of \<^verbatim>\<open>get_user_recommendations\<close>: one product id per joined row.\<close>

definition purchased_products :: "database \<Rightarrow> int \<Rightarrow> int list" where
  "purchased_products d user_id =
     map (\<lambda>(p, item, ord). p_id p)
       (filter (\<lambda>(p, item, ord). o_buyer_id ord = user_id \<and> qualifying (o_status ord))
          (joined d))"

text \<open>
  The first loop of \<^verbatim>\<open>get_user_recommendations\<close>: five similar products for every purchased
  id that has an embedding; \<open>acc\<close> is \<^verbatim>\<open>similar_products\<close>.
\<close>

fun collect_similar ::
  "externals \<Rightarrow> recommendation_service \<Rightarrow> int list \<Rightarrow> recommendation list
     \<Rightarrow> error + recommendation list" where
  "collect_similar ext self [] acc = Inr acc"
| "collect_similar ext self (pid # pids) acc =
     (if map_of (product_embeddings self) pid \<noteq> None then
        (case get_similar_products ext self pid 5 of
           Inl e \<Rightarrow> Inl e
         | Inr similar \<Rightarrow> collect_similar ext self pids (acc @ similar))
      else collect_similar ext self pids acc)"

text \<open>
  The deduplication loop, written twice in the source (in \<^verbatim>\<open>get_user_recommendations\<close>
  with \<^verbatim>\<open>seen = set(purchased_ids)\<close>, in \<^verbatim>\<open>get_personalized_recommendations\<close> with
  \<^verbatim>\<open>seen = set()\<close>); \<open>acc\<close> is the list being appended to.
\<close>

fun dedup_loop :: "int set \<Rightarrow> recommendation list \<Rightarrow> recommendation list \<Rightarrow> recommendation list" where
  "dedup_loop seen [] acc = acc"
| "dedup_loop seen (r # rs) acc =
     (if product_id r \<notin> seen then dedup_loop (insert (product_id r) seen) rs (acc @ [r])
      else dedup_loop seen rs acc)"

definition get_user_recommendations ::
  "externals \<Rightarrow> recommendation_service \<Rightarrow> int \<Rightarrow> int \<Rightarrow> error + recommendation list" where
  "get_user_recommendations ext self user_id limit =
     (let purchased_ids = purchased_products (db self) user_id
      in if purchased_ids = [] then get_popular_products self limit
         else
           (case collect_similar ext self purchased_ids [] of
              Inl e \<Rightarrow> Inl e
            | Inr similar_products \<Rightarrow>
                Inr (py_take limit (dedup_loop (set purchased_ids) similar_products []))))"

definition get_personalized_recommendations ::
  "externals \<Rightarrow> recommendation_service \<Rightarrow> int \<Rightarrow> int \<Rightarrow> error + recommendation list" where
  "get_personalized_recommendations ext self user_id limit =
     (case get_user_recommendations ext self user_id (limit div 2) of
        Inl e \<Rightarrow> Inl e
      | Inr user_recs \<Rightarrow>
          (case get_popular_products self (limit div 2) of
             Inl e \<Rightarrow> Inl e
           | Inr popular_recs \<Rightarrow>
               Inr (py_take limit (dedup_loop {} (user_recs @ popular_recs) []))))"


section \<open>Classification service (\<^verbatim>\<open>classification_service.py\<close>)\<close>

text \<open>
  The trained category classifier is opaque: \<open>predict\<close> is \<^verbatim>\<open>predict([text])[0]\<close> and
  \<open>predict_proba_max\<close> is \<^verbatim>\<open>predict_proba([text]).max()\<close>; each call may raise.
\<close>

record classifier =
  predict :: "string \<Rightarrow> error + int"
  predict_proba_max :: "string \<Rightarrow> error + real"

record tag_model =
  tm_tags :: "string list"
  tm_features :: "nat list list"

record classification_service =
  cs_db :: database
  category_classifier :: "classifier option"
  tag_classifier :: "tag_model option"
  category_model_file :: "classifier artifact"
  tag_model_file :: "tag_model artifact"

record price_range =
  min_price :: real
  max_price :: real
  average_price :: real

record tags_result =
  tags :: "string list"
  confidence_scores :: "(string \<times> nat) list"

record classification_result =
  category_id :: int
  category_name :: string
  confidence :: real
  suggested_tags :: "string list"
  suggested_price_range :: "price_range option"

text \<open>
  Strings are byte strings here: \<^verbatim>\<open>str.lower\<close>, \<^verbatim>\<open>\w\<close> and \<^verbatim>\<open>\s\<close> are modelled on ASCII, and
  a byte above 127 counts as a word character.
\<close>

definition lower_char :: "char \<Rightarrow> char" where
  "lower_char c =
     (let n = (of_char c :: nat) in if 65 \<le> n \<and> n \<le> 90 then char_of (n + 32) else c)"

definition lower :: "string \<Rightarrow> string" where
  "lower s = map lower_char s"

definition is_space :: "char \<Rightarrow> bool" where
  "is_space c = (let n = (of_char c :: nat) in (9 \<le> n \<and> n \<le> 13) \<or> (28 \<le> n \<and> n \<le> 32))"

definition is_word :: "char \<Rightarrow> bool" where
  "is_word c =
     (let n = (of_char c :: nat)
      in (97 \<le> n \<and> n \<le> 122) \<or> (65 \<le> n \<and> n \<le> 90) \<or> (48 \<le> n \<and> n \<le> 57) \<or> n = 95 \<or> 128 \<le> n)"

text \<open>\<^verbatim>\<open>text.split()\<close>: the maximal runs of non-space characters; \<open>w\<close> is the run being read.\<close>

fun split_ws :: "string \<Rightarrow> string \<Rightarrow> string list" where
  "split_ws w [] = (if w = [] then [] else [w])"
| "split_ws w (c # cs) =
     (if is_space c then (if w = [] then split_ws [] cs else w # split_ws [] cs)
      else split_ws (w @ [c]) cs)"

text \<open>\<^verbatim>\<open>needle in haystack\<close> on strings.\<close>

fun starts_with :: "'a list \<Rightarrow> 'a list \<Rightarrow> bool" where
  "starts_with ys [] = True"
| "starts_with [] (x # xs) = False"
| "starts_with (y # ys) (x # xs) = (y = x \<and> starts_with ys xs)"

fun contains :: "'a list \<Rightarrow> 'a list \<Rightarrow> bool" where
  "contains [] xs = (xs = [])"
| "contains (y # ys) xs = (starts_with (y # ys) xs \<or> contains ys xs)"

definition stop_words :: "string list" where
  "stop_words =
     [''the'', ''a'', ''an'', ''and'', ''or'', ''but'', ''in'', ''on'', ''at'', ''to'', ''for'',
      ''of'', ''with'', ''by'', ''is'', ''are'', ''was'', ''were'', ''be'', ''been'', ''being'',
      ''have'', ''has'', ''had'', ''do'', ''does'', ''did'', ''will'', ''would'', ''could'',
      ''should'', ''may'', ''might'', ''must'', ''can'', ''this'', ''that'', ''these'', ''those'',
      ''i'', ''you'', ''he'', ''she'', ''it'', ''we'', ''they'']"

text \<open>The order-preserving duplicate removal at the end of \<^verbatim>\<open>_extract_keywords\<close>.\<close>

fun unique_loop :: "string list \<Rightarrow> string list \<Rightarrow> string list \<Rightarrow> string list" where
  "unique_loop seen [] acc = acc"
| "unique_loop seen (k # ks) acc =
     (if k \<notin> set seen then unique_loop (k # seen) ks (acc @ [k]) else unique_loop seen ks acc)"

definition extract_keywords :: "string \<Rightarrow> string list" where
  "extract_keywords text0 =
     (let text1 = map (\<lambda>c. if is_word c \<or> is_space c then c else CHR '' '') (lower text0);
          words = split_ws [] text1;
          keywords = filter (\<lambda>w. 2 < length w \<and> w \<notin> set stop_words) words
      in unique_loop [] keywords [])"

text \<open>
  \<^verbatim>\<open>_get_category_tags\<close>: the query filters on the category and on \<^verbatim>\<open>tags IS NOT NULL\<close>
  only, and takes the first 100 rows.
\<close>

definition get_category_tags :: "database \<Rightarrow> int \<Rightarrow> string list" where
  "get_category_tags d cid =
     (let prods = take 100 (filter (\<lambda>p. p_category_id p = cid \<and> p_tags p \<noteq> None) (products d));
          all_tags = concat (map (\<lambda>p. case p_tags p of Some ts \<Rightarrow> ts | None \<Rightarrow> []) prods)
      in map fst (most_common 10 (Counter all_tags)))"

text \<open>\<^verbatim>\<open>text = title\<close>, then \<^verbatim>\<open>text += f" {description}"\<close> when the description is non-empty.\<close>

definition title_description :: "string \<Rightarrow> string option \<Rightarrow> string" where
  "title_description t desc =
     (case desc of Some d \<Rightarrow> if d \<noteq> [] then t @ '' '' @ d else t | None \<Rightarrow> t)"

definition generate_tags :: "database \<Rightarrow> string \<Rightarrow> string option \<Rightarrow> int option \<Rightarrow> tags_result" where
  "generate_tags d t desc cid =
     (let keywords = extract_keywords (title_description t desc);
          category_tags = (if truthy cid then get_category_tags d (the cid) else []);
          sorted_tags = order_by_desc snd (Counter (keywords @ category_tags))
      in \<lparr>tags = map fst (take 10 sorted_tags), confidence_scores = take 10 sorted_tags\<rparr>)"

text \<open>
  \<^verbatim>\<open>_suggest_price_range\<close>. The rows are the non-null prices of the active products of the
  category; \<^verbatim>\<open>min\<close>, \<^verbatim>\<open>max\<close> and \<^verbatim>\<open>sum\<close> run over the list from the left.
\<close>

definition category_prices :: "database \<Rightarrow> int \<Rightarrow> real list" where
  "category_prices d cid =
     List.map_filter p_price
       (filter (\<lambda>p. p_category_id p = cid \<and> p_status p = Active) (products d))"

definition suggest_price_range :: "database \<Rightarrow> int option \<Rightarrow> price_range option" where
  "suggest_price_range d cid =
     (if \<not> truthy cid then None
      else
        (case category_prices d (the cid) of
           [] \<Rightarrow> None
         | p # ps \<Rightarrow>
             let min_p = fold min ps p;
                 max_p = fold max ps p;
                 avg_p = sum_list (p # ps) / real (length (p # ps));
                 suggested_min = max min_p (avg_p * (7 / 10));
                 suggested_max = min max_p (avg_p * (13 / 10))
             in Some \<lparr>min_price = suggested_min, max_price = suggested_max,
                      average_price = avg_p\<rparr>))"

text \<open>
  Python's \<^verbatim>\<open>float\<close> is an IEEE 754 double. \<open>binary64\<close> rounds a real to the nearest
  number with a 53-bit significand, ties to the even significand; \<open>exponent x\<close> is the \<open>e\<close>
  with \<open>2\<^sup>e \<le> x < 2\<^sup>e\<^sup>+\<^sup>1\<close>. The exponent range is left unbounded: prices are
  \<^verbatim>\<open>DECIMAL(10, 2)\<close>, far from overflow and underflow.
\<close>

function exp_up :: "real \<Rightarrow> int" where
  "exp_up x = (if x < 2 then 0 else exp_up (x / 2) + 1)"
  by pat_completeness auto
termination
proof (relation "measure (\<lambda>x. nat \<lfloor>x\<rfloor>)")
  show "wf (measure (\<lambda>x::real. nat \<lfloor>x\<rfloor>))" by simp
next
  fix x :: real assume "\<not> x < 2"
  then have "real_of_int \<lfloor>x / 2\<rfloor> \<le> x / 2" "x / 2 \<le> x - 1" "x - 1 < real_of_int \<lfloor>x\<rfloor>"
    by linarith+
  then have "\<lfloor>x / 2\<rfloor> < \<lfloor>x\<rfloor>" "0 < \<lfloor>x\<rfloor>" using \<open>\<not> x < 2\<close> by linarith+
  then show "(x / 2, x) \<in> measure (\<lambda>x. nat \<lfloor>x\<rfloor>)" by simp
qed

function exp_down :: "real \<Rightarrow> int" where
  "exp_down x = (if x \<le> 0 \<or> 1 / 2 \<le> x then - 1 else exp_down (2 * x) - 1)"
  by pat_completeness auto
termination
proof (relation "measure (\<lambda>x. nat \<lfloor>1 / x\<rfloor>)")
  show "wf (measure (\<lambda>x::real. nat \<lfloor>1 / x\<rfloor>))" by simp
next
  fix x :: real assume a: "\<not> (x \<le> 0 \<or> 1 / 2 \<le> x)"
  then have x: "0 < x" "x < 1 / 2" by auto
  define y where "y = 1 / x"
  have y: "2 < y" using x by (simp add: y_def field_simps)
  have h: "1 / (2 * x) = y / 2" by (simp add: y_def)
  have "real_of_int \<lfloor>y / 2\<rfloor> \<le> y / 2" "y / 2 \<le> y - 1" "y - 1 < real_of_int \<lfloor>y\<rfloor>"
    using y by linarith+
  then have "\<lfloor>y / 2\<rfloor> < \<lfloor>y\<rfloor>" "0 < \<lfloor>y\<rfloor>" using y by linarith+
  then show "(2 * x, x) \<in> measure (\<lambda>x. nat \<lfloor>1 / x\<rfloor>)"
    unfolding h y_def[symmetric] in_measure h by (simp add: h y_def[symmetric])
qed

declare exp_up.simps [simp del] exp_down.simps [simp del]

definition exponent :: "real \<Rightarrow> int" where
  "exponent x = (if 1 \<le> x then exp_up x else exp_down x)"

definition round_half_even :: "real \<Rightarrow> int" where
  "round_half_even y =
     (let f = \<lfloor>y\<rfloor>; d = y - of_int f
      in if d < 1 / 2 then f else if 1 / 2 < d then f + 1 else if even f then f else f + 1)"

definition binary64 :: "real \<Rightarrow> real" where
  "binary64 x =
     (if x = 0 then 0
      else
        let a = \<bar>x\<bar>;
            q = 2 powi (exponent a - 52);
            r = of_int (round_half_even (a / q)) * q
        in if 0 < x then r else - r)"

text \<open>
  The builtin \<^verbatim>\<open>sum\<close> on floats. CPython before 3.12 adds from the left and rounds
  every partial sum (\<open>float_sum\<close>); from 3.12 on it also carries Neumaier's compensation
  term \<open>c\<close> and adds it at the end (\<open>compensated_sum\<close>).
\<close>

definition float_sum :: "real list \<Rightarrow> real" where
  "float_sum xs = fold (\<lambda>x s. binary64 (s + x)) xs 0"

fun compensated_loop :: "real \<Rightarrow> real \<Rightarrow> real list \<Rightarrow> real" where
  "compensated_loop s c [] = (if c \<noteq> 0 then binary64 (s + c) else s)"
| "compensated_loop s c (x # xs) =
     (let t = binary64 (s + x);
          c' = (if \<bar>x\<bar> \<le> \<bar>s\<bar> then binary64 (c + binary64 (binary64 (s - t) + x))
                else binary64 (c + binary64 (binary64 (x - t) + s)))
      in compensated_loop t c' xs)"

definition compensated_sum :: "real list \<Rightarrow> real" where
  "compensated_sum xs = (case xs of [] \<Rightarrow> 0 | x # rest \<Rightarrow> compensated_loop (binary64 (0 + x)) 0 rest)"

text \<open>\<^verbatim>\<open>prices = [float(product.price) for product in products]\<close>.\<close>

definition float_prices :: "database \<Rightarrow> int \<Rightarrow> real list" where
  "float_prices d cid = map binary64 (category_prices d cid)"

text \<open>
  \<^verbatim>\<open>_suggest_price_range\<close> once more, now with every float operation rounded: the
  conversion of the prices, the division by the count, the literals \<open>0.7\<close> and \<open>1.3\<close> and the
  two products. The builtin \<^verbatim>\<open>sum\<close> is the parameter \<open>fsum\<close>.
\<close>

definition suggest_price_range_float ::
  "(real list \<Rightarrow> real) \<Rightarrow> database \<Rightarrow> int option \<Rightarrow> price_range option" where
  "suggest_price_range_float fsum d cid =
     (if \<not> truthy cid then None
      else
        (case float_prices d (the cid) of
           [] \<Rightarrow> None
         | p # ps \<Rightarrow>
             let min_p = fold min ps p;
                 max_p = fold max ps p;
                 avg_p = binary64 (fsum (p # ps) / real (length (p # ps)));
                 suggested_min = max min_p (binary64 (avg_p * binary64 (7 / 10)));
                 suggested_max = min max_p (binary64 (avg_p * binary64 (13 / 10)))
             in Some \<lparr>min_price = suggested_min, max_price = suggested_max,
                      average_price = avg_p\<rparr>))"

text \<open>
  The prediction step of \<^verbatim>\<open>classify_product\<close>: both calls sit in one \<^verbatim>\<open>try\<close> whose
  \<^verbatim>\<open>except: pass\<close> keeps whatever was assigned before the exception.
\<close>

definition predict_category :: "classifier option \<Rightarrow> string \<Rightarrow> int option \<times> real" where
  "predict_category clf text0 =
     (case clf of
        None \<Rightarrow> (None, 0)
      | Some c \<Rightarrow>
          (case predict c text0 of
             Inl e \<Rightarrow> (None, 0)
           | Inr predicted \<Rightarrow>
               (case predict_proba_max c text0 of
                  Inl e \<Rightarrow> (Some predicted, 0)
                | Inr pr \<Rightarrow> (Some predicted, pr))))"

definition classify_product ::
  "classification_service \<Rightarrow> string \<Rightarrow> string option \<Rightarrow> classification_result" where
  "classify_product self t desc =
     (let text0 = title_description t desc;
          (predicted_category_id, conf) = predict_category (category_classifier self) text0;
          name = (if truthy predicted_category_id then
                    (case find (\<lambda>c. c_id c = the predicted_category_id) (categories (cs_db self)) of
                       Some c \<Rightarrow> c_name c
                     | None \<Rightarrow> ''Unknown'')
                  else ''Unknown'');
          tags_res = generate_tags (cs_db self) t desc predicted_category_id;
          range = suggest_price_range (cs_db self) predicted_category_id
      in \<lparr>category_id = (if truthy predicted_category_id then the predicted_category_id else 1),
          category_name = name, confidence = conf,
          suggested_tags = tags tags_res, suggested_price_range = range\<rparr>)"

definition save_classification_models :: "classification_service \<Rightarrow> classification_service" where
  "save_classification_models self =
     (let self1 = (case category_classifier self of
                     Some c \<Rightarrow> self\<lparr>category_model_file := Holds c\<rparr>
                   | None \<Rightarrow> self)
      in case tag_classifier self1 of
           Some m \<Rightarrow> self1\<lparr>tag_model_file := Holds m\<rparr>
         | None \<Rightarrow> self1)"

text \<open>
  \<^verbatim>\<open>_build_classification_models\<close>; \<open>fit\<close> is the training of the scikit-learn pipeline on
  (text, category) pairs, which may raise (the vectorizer does on texts made of stop words
  only); the exception leaves the method before anything is saved. \<^verbatim>\<open>category_id\<close> is a
  non-null column, so the query's \<^verbatim>\<open>category_id IS NOT NULL\<close> holds of every row.
\<close>

definition build_classification_models ::
  "(string list \<Rightarrow> int list \<Rightarrow> error + classifier) \<Rightarrow> classification_service
     \<Rightarrow> error + classification_service" where
  "build_classification_models fit self =
     (let prods = filter (\<lambda>p. p_status p = Active) (products (cs_db self))
      in if prods = [] then Inr self
         else
           let texts = map (\<lambda>p. title_description (p_title p) (p_description p)) prods;
               cats = map p_category_id prods;
               tags_list = filter (\<lambda>ts. ts \<noteq> [])
                             (List.map_filter p_tags prods)
           in case fit texts cats of
                Inl e \<Rightarrow> Inl e
              | Inr trained \<Rightarrow>
                  let self1 = self\<lparr>category_classifier := Some trained\<rparr>;
                      self2 =
                        (if tags_list \<noteq> [] then
                           let common_tags = map fst (most_common 50 (Counter (concat tags_list)));
                               tag_features =
                                 map (\<lambda>tx. map (\<lambda>tg. if contains (lower tx) (lower tg)
                                                      then 1 else 0)
                                              common_tags) texts
                           in self1\<lparr>tag_classifier :=
                                      Some \<lparr>tm_tags = common_tags, tm_features = tag_features\<rparr>\<rparr>
                         else self1)
                  in Inr (save_classification_models self2))"

text \<open>
  \<^verbatim>\<open>__init__\<close> followed by \<^verbatim>\<open>_load_classification_models\<close>. Neither \<^verbatim>\<open>pickle.load\<close> is
  inside a \<^verbatim>\<open>try\<close>, and both loads come before the build.
\<close>

definition load_classification_models ::
  "(string list \<Rightarrow> int list \<Rightarrow> error + classifier) \<Rightarrow> database \<Rightarrow> classifier artifact
     \<Rightarrow> tag_model artifact \<Rightarrow> error + classification_service" where
  "load_classification_models fit d cf tf =
     (case (if exists_file cf then
              (case load_file cf of Inl e \<Rightarrow> Inl e | Inr c \<Rightarrow> Inr (Some c))
            else Inr None) of
        Inl e \<Rightarrow> Inl e
      | Inr cc \<Rightarrow>
          (case (if exists_file tf then
                   (case load_file tf of Inl e \<Rightarrow> Inl e | Inr m \<Rightarrow> Inr (Some m))
                 else Inr None) of
             Inl e \<Rightarrow> Inl e
           | Inr tc \<Rightarrow>
               let self = \<lparr>cs_db = d, category_classifier = cc, tag_classifier = tc,
                           category_model_file = cf, tag_model_file = tf\<rparr>
               in if cc = None \<or> tc = None
                  then build_classification_models fit self
                  else Inr self))"


section \<open>A small catalog used to run the definitions\<close>

definition example_product :: "int \<Rightarrow> int \<Rightarrow> real \<Rightarrow> product_status \<Rightarrow> int \<Rightarrow> product" where
  "example_product i c pr st sales =
     \<lparr>p_id = i, p_title = ''item'', p_description = None, p_category_id = c,
      p_price = Some pr, p_images = None, p_tags = None, p_status = st,
      p_sales_count = sales, p_rating = 4, p_created_at = 0\<rparr>"

definition example_db :: database where
  "example_db =
     \<lparr>products = [example_product 1 1 10 Active 5, example_product 2 1 20 Active 7,
                  example_product 3 2 30 Active 6],
      categories = [\<lparr>c_id = 1, c_name = ''Bags''\<rparr>, \<lparr>c_id = 2, c_name = ''Shoes''\<rparr>],
      orders = [\<lparr>o_id = 1, o_buyer_id = 100, o_status = Paid, o_created_at = 1000\<rparr>,
                \<lparr>o_id = 2, o_buyer_id = 200, o_status = Pending, o_created_at = 1000\<rparr>,
                \<lparr>o_id = 3, o_buyer_id = 400, o_status = Delivered, o_created_at = 1000\<rparr>],
      order_items = [\<lparr>oi_order_id = 1, oi_product_id = 1, oi_quantity = 2\<rparr>,
                     \<lparr>oi_order_id = 2, oi_product_id = 2, oi_quantity = 1\<rparr>,
                     \<lparr>oi_order_id = 3, oi_product_id = 3, oi_quantity = 1\<rparr>]\<rparr>"

text \<open>An index search that reports the first \<open>k\<close> positions, each with score 1.\<close>

definition example_ext :: externals where
  "example_ext =
     \<lparr>encode = (\<lambda>s. [real (length s)]), normalize_L2 = (\<lambda>v. v),
      index_search = (\<lambda>ix e k. if k \<le> 0 then Inl LibraryError
                                 else Inr (take (nat k) (map (\<lambda>i. (1, int i)) [0..<length ix])))\<rparr>"

text \<open>A service whose index holds products 1 and 2 only.\<close>

definition example_service :: recommendation_service where
  "example_service =
     \<lparr>db = example_db, product_embeddings = [(1, [1, 0]), (2, [0, 1])],
      index = Some [[1, 0], [0, 1]], vector_file = Absent, index_file = Absent\<rparr>"

definition example_rec :: "int \<Rightarrow> real \<Rightarrow> real \<Rightarrow> string \<Rightarrow> recommendation" where
  "example_rec i pr sc why =
     \<lparr>product_id = i, title = ''item'', price = pr, image_url = None, score = sc, reason = why\<rparr>"


text \<open>Category 1 with active products priced 10, 20, 30, 40, 50 and one draft product.\<close>

definition scenario_db :: database where
  "scenario_db =
     \<lparr>products = [example_product 1 1 10 Active 0, example_product 2 1 20 Active 0,
                  example_product 3 1 30 Active 0, example_product 4 1 40 Active 0,
                  example_product 5 1 50 Active 0, example_product 6 1 99 Draft 0],
      categories = [\<lparr>c_id = 1, c_name = ''Bags''\<rparr>], orders = [], order_items = []\<rparr>"

text \<open>Category 1 with a single active product whose stored price is negative.\<close>

definition negative_price_db :: database where
  "negative_price_db =
     \<lparr>products = [example_product 1 1 (- 10) Active 0],
      categories = [\<lparr>c_id = 1, c_name = ''Bags''\<rparr>], orders = [], order_items = []\<rparr>"

text \<open>Category 1 with three active products priced 0.10.\<close>

definition dime_db :: database where
  "dime_db =
     \<lparr>products = [example_product 1 1 (1 / 10) Active 0, example_product 2 1 (1 / 10) Active 0,
                  example_product 3 1 (1 / 10) Active 0],
      categories = [\<lparr>c_id = 1, c_name = ''Bags''\<rparr>], orders = [], order_items = []\<rparr>"

text \<open>Category 1 holds one draft product with a tag and no active product.\<close>

definition draft_only_db :: database where
  "draft_only_db =
     \<lparr>products = [(example_product 1 1 10 Draft 0)\<lparr>p_tags := Some [''secret'']\<rparr>],
      categories = [\<lparr>c_id = 1, c_name = ''Bags''\<rparr>], orders = [], order_items = []\<rparr>"

text \<open>A classifier whose \<open>predict\<close> answers category 2 and whose \<open>predict_proba\<close> raises.\<close>

definition half_failing_classifier :: classifier where
  "half_failing_classifier =
     \<lparr>predict = (\<lambda>t. Inr 2), predict_proba_max = (\<lambda>t. Inl LibraryError)\<rparr>"

text \<open>A training that returns that classifier, and one that raises.\<close>

definition example_fit :: "string list \<Rightarrow> int list \<Rightarrow> error + classifier" where
  "example_fit texts cats = Inr half_failing_classifier"

definition failing_fit :: "string list \<Rightarrow> int list \<Rightarrow> error + classifier" where
  "failing_fit texts cats = Inl LibraryError"

definition example_classification_service :: "classifier option \<Rightarrow> classification_service" where
  "example_classification_service clf =
     \<lparr>cs_db = example_db, category_classifier = clf, tag_classifier = None,
      category_model_file = Absent, tag_model_file = Absent\<rparr>"


section \<open>Facts about the building blocks\<close>

lemma length_py_take: "0 \<le> n \<Longrightarrow> length (py_take n xs) \<le> nat n"
  by (simp add: py_take_def)

lemma py_take_prefix: "prefix (py_take n xs) xs"
  by (simp add: py_take_def take_is_prefix)

lemma set_py_take: "set (py_take n xs) \<subseteq> set xs"
  by (auto simp: py_take_def dest: in_set_takeD)

lemma find_holds: "find P xs = Some x \<Longrightarrow> P x"
  by (induction xs) (auto split: if_splits)

lemma similar_rec_fields:
  "similar_rec p sc = Inr r \<Longrightarrow> product_id r = p_id p \<and> score r = sc"
  by (auto simp: similar_rec_def split: sum.splits)

lemma reported_Cons:
  "reported ids ((sc, idx) # hits) =
     (if idx = - 1 \<or> int (length ids) \<le> idx then reported ids hits
      else (case py_nth ids idx of
              Inl e \<Rightarrow> reported ids hits
            | Inr i \<Rightarrow> (sc, i) # reported ids hits))"
  by (simp add: reported_def split: sum.splits)


section \<open>Similar products\<close>

text \<open>
  What one run of the loop appends: never the query product, and in the order the index
  reported.
\<close>

lemma similar_loop_spec:
  "similar_loop d ids pid hits acc = Inr out \<Longrightarrow>
     \<exists>new. out = acc @ new \<and> pid \<notin> product_id ` set new \<and>
           subseq (map (\<lambda>r. (score r, product_id r)) new) (reported ids hits)"
proof (induction hits arbitrary: acc)
  case Nil
  then show ?case by (simp add: reported_def)
next
  case (Cons h hits)
  obtain sc idx where h: "h = (sc, idx)" by (cases h)
  show ?case
  proof (cases "idx = - 1 \<or> int (length ids) \<le> idx")
    case True
    with Cons.prems h have "similar_loop d ids pid hits acc = Inr out" by auto
    from Cons.IH[OF this] show ?thesis using True h by (simp add: reported_Cons)
  next
    case False
    then obtain i where i: "py_nth ids idx = Inr i"
      using Cons.prems h by (cases "py_nth ids idx") auto
    show ?thesis
    proof (cases "i = pid")
      case True
      with Cons.prems h False i have "similar_loop d ids pid hits acc = Inr out" by auto
      from Cons.IH[OF this] show ?thesis using False h i
        by (auto simp: reported_Cons)
    next
      case ne: False
      show ?thesis
      proof (cases "find (\<lambda>p. p_id p = i) (products d)")
        case None
        with Cons.prems h False i ne have "similar_loop d ids pid hits acc = Inr out" by auto
        from Cons.IH[OF this] show ?thesis using False h i
          by (auto simp: reported_Cons)
      next
        case (Some p)
        then have pi: "p_id p = i" by (auto dest: find_holds)
        from Cons.prems h False i ne Some obtain r where
          r: "similar_rec p sc = Inr r" and
          rest: "similar_loop d ids pid hits (acc @ [r]) = Inr out"
          by (cases "similar_rec p sc") auto
        from Cons.IH[OF rest] obtain new where
          new: "out = (acc @ [r]) @ new" "pid \<notin> product_id ` set new"
               "subseq (map (\<lambda>r. (score r, product_id r)) new) (reported ids hits)" by blast
        from similar_rec_fields[OF r] pi have rf: "product_id r = i" "score r = sc" by auto
        show ?thesis
          apply (rule exI[of _ "r # new"])
          using new rf ne False h i by (simp add: reported_Cons)
      qed
    qed
  qed
qed

text \<open>
  C1. Whenever \<^verbatim>\<open>get_similar_products(A, k)\<close> returns a list, the list does not contain
  \<open>A\<close>; for \<open>k \<ge> 0\<close> it has at most \<open>k\<close> entries; and when \<open>A\<close> has an embedding and an index
  exists, the index was asked for \<open>k + 1\<close> neighbours and the (score, product) pairs returned
  are a subsequence of what the index reported, in the index's order.
\<close>

theorem get_similar_products_excludes_query:
  assumes "get_similar_products ext self pid limit = Inr recs"
  shows "pid \<notin> product_id ` set recs \<and>
         (0 \<le> limit \<longrightarrow> length recs \<le> nat limit) \<and>
         (\<forall>e ix. map_of (product_embeddings self) pid = Some e \<and> index self = Some ix \<longrightarrow>
            (\<exists>hits. index_search ext ix e (limit + 1) = Inr hits \<and>
                    subseq (map (\<lambda>r. (score r, product_id r)) recs)
                      (reported (map fst (product_embeddings self)) hits)))"
proof (cases "map_of (product_embeddings self) pid")
  case None
  with assms show ?thesis by (simp add: get_similar_products_def)
next
  case (Some e)
  show ?thesis
  proof (cases "index self")
    case None
    with assms Some show ?thesis by (simp add: get_similar_products_def)
  next
    case ix: (Some ix)
    from assms Some ix obtain hits where
      hits: "index_search ext ix e (limit + 1) = Inr hits"
      by (cases "index_search ext ix e (limit + 1)") (auto simp: get_similar_products_def)
    from assms Some ix hits obtain sims where
      sims: "similar_loop (db self) (map fst (product_embeddings self)) pid hits [] = Inr sims"
      and recs: "recs = py_take limit sims"
      by (cases "similar_loop (db self) (map fst (product_embeddings self)) pid hits []")
         (auto simp: get_similar_products_def)
    from similar_loop_spec[OF sims] have
      notin: "pid \<notin> product_id ` set sims" and
      sub: "subseq (map (\<lambda>r. (score r, product_id r)) sims)
              (reported (map fst (product_embeddings self)) hits)" by auto
    have "subseq recs sims" unfolding recs by (rule prefix_imp_subseq[OF py_take_prefix])
    then have "subseq (map (\<lambda>r. (score r, product_id r)) recs)
                 (map (\<lambda>r. (score r, product_id r)) sims)" by (rule subseq_map)
    from this sub have s2: "subseq (map (\<lambda>r. (score r, product_id r)) recs)
              (reported (map fst (product_embeddings self)) hits)"
      by (rule subseq_order.order_trans)
    have n2: "pid \<notin> product_id ` set recs" using notin set_py_take[of limit sims] recs by auto
    show ?thesis using n2 s2 hits Some ix recs by (auto simp: length_py_take)
  qed
qed

lemma example_similar:
  "get_similar_products example_ext example_service 1 1 =
     Inr [example_rec 2 20 1 ''Similar product'']"
  by (simp add: get_similar_products_def example_ext_def example_service_def example_db_def
        example_product_def example_rec_def py_take_def py_nth_def similar_rec_def
        py_float_def first_image_def upt_rec)

theorem get_similar_products_excludes_query_witness:
  "get_similar_products example_ext example_service 1 1 =
     Inr [example_rec 2 20 1 ''Similar product''] \<and>
   1 \<notin> product_id ` set [example_rec 2 20 1 ''Similar product''] \<and>
   length [example_rec 2 20 1 ''Similar product''] \<le> nat 1 \<and>
   subseq (map (\<lambda>r. (score r, product_id r)) [example_rec 2 20 1 ''Similar product''])
     (reported [1, 2] [(1, 0), (1, 1)])"
proof -
  have ix: "index_search example_ext [[1, 0], [0, 1]] [1, 0] (1 + 1) = Inr [(1, 0), (1, 1)]"
    by (simp add: example_ext_def upt_rec)
  have "map_of (product_embeddings example_service) 1 = Some [1, 0] \<and>
        index example_service = Some [[1, 0], [0, 1]]"
    by (simp add: example_service_def)
  with get_similar_products_excludes_query[OF example_similar] ix
  show ?thesis using example_similar by (auto simp: example_service_def)
qed


section \<open>User history\<close>

text \<open>
  The purchase-history query is empty exactly when no joined row belongs to the user with an
  order in a qualifying status.
\<close>

lemma purchased_products_empty_iff:
  "purchased_products d user_id = [] \<longleftrightarrow>
     list_all (\<lambda>(p, item, ord). o_buyer_id ord \<noteq> user_id \<or> \<not> qualifying (o_status ord))
       (joined d)"
  by (auto simp: purchased_products_def filter_empty_conv list_all_iff)

text \<open>
  C3. A user with no qualifying purchase (no joined row of an order in status paid,
  processing, shipped or delivered) gets, for every limit, exactly what
  \<^verbatim>\<open>get_popular_products(limit)\<close> returns: the same list in the same order, or the same
  exception.
\<close>

theorem no_history_equals_popular:
  assumes "purchased_products (db self) user_id = []"
  shows "get_user_recommendations ext self user_id limit = get_popular_products self limit"
  using assms by (simp add: get_user_recommendations_def)

lemma example_joined:
  "joined example_db =
     [(example_product 1 1 10 Active 5, \<lparr>oi_order_id = 1, oi_product_id = 1, oi_quantity = 2\<rparr>,
         \<lparr>o_id = 1, o_buyer_id = 100, o_status = Paid, o_created_at = 1000\<rparr>),
      (example_product 2 1 20 Active 7, \<lparr>oi_order_id = 2, oi_product_id = 2, oi_quantity = 1\<rparr>,
         \<lparr>o_id = 2, o_buyer_id = 200, o_status = Pending, o_created_at = 1000\<rparr>),
      (example_product 3 2 30 Active 6, \<lparr>oi_order_id = 3, oi_product_id = 3, oi_quantity = 1\<rparr>,
         \<lparr>o_id = 3, o_buyer_id = 400, o_status = Delivered, o_created_at = 1000\<rparr>)]"
  by (simp add: joined_def example_db_def example_product_def)

lemma example_purchases:
  "purchased_products example_db 100 = [1]"
  "purchased_products example_db 200 = []"
  "purchased_products example_db 400 = [3]"
  by (simp_all add: purchased_products_def example_joined qualifying_def example_product_def)

lemma example_popular:
  "get_popular_products example_service 2 =
     Inr [example_rec 2 20 7 ''Popular product'', example_rec 3 30 6 ''Popular product'']"
  by (simp add: get_popular_products_def example_service_def example_db_def example_product_def
       order_by_desc_def sql_limit_def popular_rec_def py_float_def first_image_def example_rec_def
       less_eq_prod_def)

theorem no_history_equals_popular_witness:
  "purchased_products (db example_service) 200 = [] \<and>
   get_user_recommendations example_ext example_service 200 2 =
     Inr [example_rec 2 20 7 ''Popular product'', example_rec 3 30 6 ''Popular product'']"
proof -
  have h: "purchased_products (db example_service) 200 = []"
    by (simp add: example_service_def example_purchases)
  from no_history_equals_popular[OF h, of example_ext 2] h show ?thesis
    by (simp add: example_popular)
qed

lemma collect_similar_no_embedding:
  "\<forall>pid \<in> set pids. map_of (product_embeddings self) pid = None \<Longrightarrow>
     collect_similar ext self pids acc = Inr acc"
  by (induction pids arbitrary: acc) auto

text \<open>
  C10. A user who has qualifying purchases, none of which is a key of the embedding map,
  gets the empty list: no exception and no fall-back to the popular products.
\<close>

theorem purchases_outside_index_give_empty:
  assumes "purchased_products (db self) user_id \<noteq> []"
      and "\<forall>pid \<in> set (purchased_products (db self) user_id).
             map_of (product_embeddings self) pid = None"
  shows "get_user_recommendations ext self user_id limit = Inr []"
  using assms
  by (simp add: get_user_recommendations_def collect_similar_no_embedding py_take_def)

theorem purchases_outside_index_give_empty_witness:
  "purchased_products (db example_service) 400 = [3] \<and>
   map_of (product_embeddings example_service) 3 = None \<and>
   get_user_recommendations example_ext example_service 400 10 = Inr []"
proof -
  have p: "purchased_products (db example_service) 400 = [3]"
    by (simp add: example_service_def example_purchases)
  have m: "map_of (product_embeddings example_service) 3 = None"
    by (simp add: example_service_def)
  have "get_user_recommendations example_ext example_service 400 10 = Inr []"
    by (rule purchases_outside_index_give_empty) (simp_all add: p m)
  with p m show ?thesis by simp
qed


section \<open>Price range\<close>

lemma fold_min_Min: "fold min ps (p::real) = Min (insert p (set ps))"
  using Min.set_eq_fold[of p ps] by simp

lemma fold_max_Max: "fold max ps (p::real) = Max (insert p (set ps))"
  using Max.set_eq_fold[of p ps] by simp

lemma sum_list_lower: "\<forall>x \<in> set xs. (m::real) \<le> x \<Longrightarrow> real (length xs) * m \<le> sum_list xs"
  by (induction xs) (auto simp: algebra_simps)

lemma sum_list_upper: "\<forall>x \<in> set xs. x \<le> (m::real) \<Longrightarrow> sum_list xs \<le> real (length xs) * m"
  by (induction xs) (auto simp: algebra_simps)

lemma mean_between:
  assumes "xs \<noteq> []"
  shows "Min (set xs) \<le> sum_list xs / real (length xs) \<and>
         sum_list xs / real (length xs) \<le> Max (set xs)"
proof -
  have n: "0 < real (length xs)" using assms by simp
  have "real (length xs) * Min (set xs) \<le> sum_list xs"
    by (rule sum_list_lower) simp
  moreover have "sum_list xs \<le> real (length xs) * Max (set xs)"
    by (rule sum_list_upper) simp
  ultimately show ?thesis using n
    by (simp add: pos_le_divide_eq pos_divide_le_eq mult.commute)
qed



lemma scenario_prices: "category_prices scenario_db 1 = [10, 20, 30, 40, 50]"
  by (simp add: category_prices_def scenario_db_def example_product_def)



subsection \<open>Rounding to double precision\<close>

lemma exp_up_stop: "x < 2 \<Longrightarrow> exp_up x = 0"
  by (subst exp_up.simps) (simp only: if_True)

lemma exp_up_step: "\<not> x < 2 \<Longrightarrow> exp_up x = exp_up (x / 2) + 1"
  by (subst exp_up.simps) (simp only: if_False)

lemma exp_down_stop: "x \<le> 0 \<or> 1 / 2 \<le> x \<Longrightarrow> exp_down x = - 1"
  by (subst exp_down.simps) (simp only: if_True)

lemma exp_down_step: "\<not> (x \<le> 0 \<or> 1 / 2 \<le> x) \<Longrightarrow> exp_down x = exp_down (2 * x) - 1"
  by (subst exp_down.simps) (simp only: if_False)

lemma exp_up_bounds: "1 \<le> x \<Longrightarrow> 2 powi (exp_up x) \<le> x \<and> x < 2 powi (exp_up x + 1)"
proof (induction x rule: exp_up.induct)
  case (1 x)
  show ?case
  proof (cases "x < 2")
    case True
    then show ?thesis using "1.prems" by (simp add: exp_up_stop)
  next
    case False
    then have "1 \<le> x / 2" by simp
    from "1.IH"[OF False this] have
      lo: "2 powi (exp_up (x / 2)) \<le> x / 2" and hi: "x / 2 < 2 powi (exp_up (x / 2) + 1)"
      by auto
    have a: "(2::real) powi (exp_up (x / 2) + 1) = 2 powi (exp_up (x / 2)) * 2"
      by (simp add: power_int_add_1)
    have b: "(2::real) powi (exp_up (x / 2) + 1 + 1) = 2 powi (exp_up (x / 2) + 1) * 2"
      by (rule power_int_add_1) simp
    from lo hi have "2 powi (exp_up (x / 2) + 1) \<le> x" "x < 2 powi (exp_up (x / 2) + 1 + 1)"
      unfolding b unfolding a by linarith+
    then show ?thesis unfolding exp_up_step[OF False] by blast
  qed
qed

lemma exp_down_bounds:
  "0 < x \<Longrightarrow> x < 1 \<Longrightarrow> 2 powi (exp_down x) \<le> x \<and> x < 2 powi (exp_down x + 1)"
proof (induction x rule: exp_down.induct)
  case (1 x)
  show ?case
  proof (cases "1 / 2 \<le> x")
    case True
    then have "exp_down x = - 1" by (simp add: exp_down_stop)
    then show ?thesis using True "1.prems" by (simp add: power_int_minus)
  next
    case False
    then have c: "\<not> (x \<le> 0 \<or> 1 / 2 \<le> x)" using "1.prems" by simp
    have "0 < 2 * x" "2 * x < 1" using False "1.prems" by simp_all
    from "1.IH"[OF c this] have
      lo: "2 powi (exp_down (2 * x)) \<le> 2 * x" and hi: "2 * x < 2 powi (exp_down (2 * x) + 1)"
      by auto
    have a: "(2::real) powi (exp_down (2 * x)) = 2 powi (exp_down (2 * x) - 1) * 2"
      using power_int_add_1[of "2::real" "exp_down (2 * x) - 1"] by simp
    have b: "(2::real) powi (exp_down (2 * x) + 1) = 2 powi (exp_down (2 * x)) * 2"
      by (simp add: power_int_add_1)
    from lo have l: "2 powi (exp_down (2 * x) - 1) \<le> x" unfolding a by linarith
    from hi have h: "x < 2 powi (exp_down (2 * x))" unfolding b by linarith
    have "exp_down x - 1 + 1 = exp_down x" by simp
    show ?thesis unfolding exp_down_step[OF c] using l h by simp
  qed
qed

lemma exponent_bounds:
  "0 < x \<Longrightarrow> 2 powi (exponent x) \<le> x \<and> x < 2 powi (exponent x + 1)"
  using exp_up_bounds[of x] exp_down_bounds[of x] by (cases "1 \<le> x") (auto simp: exponent_def)

lemma exponent_unique:
  assumes "0 < x" "2 powi e \<le> x" "x < 2 powi (e + 1)"
  shows "exponent x = e"
proof -
  from exponent_bounds[OF assms(1)] have
    lo: "2 powi (exponent x) \<le> x" and hi: "x < 2 powi (exponent x + 1)" by auto
  have "(2::real) powi e < 2 powi (exponent x + 1)" using assms(2) hi by linarith
  then have 1: "e < exponent x + 1"
    by (metis linorder_not_less one_le_numeral power_int_increasing)
  have "(2::real) powi (exponent x) < 2 powi (e + 1)" using lo assms(3) by linarith
  then have 2: "exponent x < e + 1"
    by (metis linorder_not_less one_le_numeral power_int_increasing)
  from 1 2 show ?thesis by linarith
qed

lemma round_half_even_error: "\<bar>of_int (round_half_even y) - y\<bar> \<le> 1 / 2"
proof -
  have "of_int \<lfloor>y\<rfloor> \<le> y" "y < of_int \<lfloor>y\<rfloor> + 1" by linarith+
  then show ?thesis by (auto simp: round_half_even_def Let_def)
qed


lemma binary64_pos:
  "0 < x \<Longrightarrow>
     binary64 x = of_int (round_half_even (x / 2 powi (exponent x - 52))) * 2 powi (exponent x - 52)"
  by (simp add: binary64_def Let_def)

lemma binary64_neg: "binary64 (- x) = - binary64 x"
  by (simp add: binary64_def Let_def)

lemma binary64_zero: "binary64 0 = 0"
  by (simp add: binary64_def)

lemma binary64_error_pos:
  assumes "0 < x"
  shows "\<bar>binary64 x - x\<bar> \<le> x / 2 ^ 53"
proof -
  define q :: real where "q = 2 powi (exponent x - 52)"
  have q: "0 < q" by (simp add: q_def)
  from exponent_bounds[OF assms] have lo: "2 powi (exponent x) \<le> x" by simp
  have "(2::real) powi (exponent x) = 2 powi (exponent x - 52) * 2 powi 52"
    using power_int_add[of "2::real" "exponent x - 52" 52] by simp
  then have qx: "q * 2 ^ 52 \<le> x" using lo by (simp add: q_def)
  have "\<bar>of_int (round_half_even (x / q)) - x / q\<bar> \<le> 1 / 2"
    by (rule round_half_even_error)
  then have "\<bar>of_int (round_half_even (x / q)) - x / q\<bar> * q \<le> 1 / 2 * q"
    using q by (intro mult_right_mono) simp_all
  moreover have "\<bar>of_int (round_half_even (x / q)) - x / q\<bar> * q =
                 \<bar>of_int (round_half_even (x / q)) * q - x\<bar>"
  proof -
    have "\<bar>of_int (round_half_even (x / q)) - x / q\<bar> * q =
          \<bar>(of_int (round_half_even (x / q)) - x / q) * q\<bar>"
      using q by (simp add: abs_mult)
    also have "(of_int (round_half_even (x / q)) - x / q) * q =
               of_int (round_half_even (x / q)) * q - x"
      using q by (simp add: algebra_simps)
    finally show ?thesis .
  qed
  ultimately have "\<bar>of_int (round_half_even (x / q)) * q - x\<bar> \<le> q / 2" by simp
  moreover have "binary64 x = of_int (round_half_even (x / q)) * q"
    unfolding q_def using assms by (rule binary64_pos)
  ultimately have "\<bar>binary64 x - x\<bar> \<le> q / 2" by simp
  moreover have "q / 2 \<le> x / 2 ^ 53" using qx by simp
  ultimately show ?thesis by linarith
qed

lemma binary64_error: "\<bar>binary64 x - x\<bar> \<le> \<bar>x\<bar> / 2 ^ 53"
proof (cases "0 < x")
  case True
  then show ?thesis using binary64_error_pos[of x] by simp
next
  case False
  show ?thesis
  proof (cases "x = 0")
    case True
    then show ?thesis by (simp add: binary64_zero)
  next
    case ne: False
    with False have "0 < - x" by simp
    from binary64_error_pos[OF this] show ?thesis
      using False by (simp add: binary64_neg)
  qed
qed

lemma binary64_nonneg:
  assumes "0 \<le> x"
  shows "0 \<le> binary64 x"
proof -
  have "\<bar>binary64 x - x\<bar> \<le> x / 2 ^ 53" using binary64_error[of x] assms by simp
  moreover have "x / 2 ^ 53 \<le> x" using assms by (simp add: field_simps)
  ultimately show ?thesis by linarith
qed

lemma float_sum_snoc: "float_sum (xs @ [x]) = binary64 (float_sum xs + x)"
  by (simp add: float_sum_def)

lemma float_sum_nonneg: "\<forall>x \<in> set xs. 0 \<le> x \<Longrightarrow> 0 \<le> float_sum xs"
proof (induction xs rule: rev_induct)
  case Nil
  then show ?case by (simp add: float_sum_def)
next
  case (snoc x xs)
  then have "0 \<le> float_sum xs + x" by simp
  then show ?case unfolding float_sum_snoc by (rule binary64_nonneg)
qed

lemma float_sum_accuracy:
  "\<forall>x \<in> set xs. 0 \<le> x \<Longrightarrow> length xs \<le> 2 ^ 51 \<Longrightarrow>
     \<bar>float_sum xs - sum_list xs\<bar> \<le> real (length xs) * sum_list xs / 2 ^ 52"
proof (induction xs rule: rev_induct)
  case Nil
  then show ?case by (simp add: float_sum_def)
next
  case (snoc x xs)
  define S where "S = float_sum xs"
  define T where "T = sum_list xs"
  define k where "k = real (length xs)"
  have x: "0 \<le> x" and T: "0 \<le> T" using snoc.prems(1) by (auto simp: T_def sum_list_nonneg)
  have S: "0 \<le> S" unfolding S_def using snoc.prems(1) by (intro float_sum_nonneg) simp
  have "length xs \<le> 2 ^ 51" using snoc.prems(2) by simp
  then have "real (length xs) \<le> real (2 ^ 51)" by (rule of_nat_mono)
  then have k: "0 \<le> k" "k \<le> 2 ^ 51" by (simp_all add: k_def)
  have IH: "\<bar>S - T\<bar> \<le> k * T / 2 ^ 52"
    unfolding S_def T_def k_def using snoc.prems \<open>length xs \<le> 2 ^ 51\<close> by (intro snoc.IH) simp_all
  have "k * T \<le> 2 ^ 51 * T" using k T by (intro mult_right_mono) simp_all
  then have kT: "k * T / 2 ^ 52 \<le> T / 2" by (simp add: mult.commute)
  have kx: "0 \<le> k * x" using k x by simp
  have kT0: "0 \<le> k * T" using k T by simp
  have S2: "S \<le> 2 * T" using IH kT T by linarith
  have e: "\<bar>binary64 (S + x) - (S + x)\<bar> \<le> (S + x) / 2 ^ 53"
    using binary64_error[of "S + x"] S x by simp
  have "(S + x) / 2 ^ 53 \<le> (T + x) / 2 ^ 52" using S2 x by simp
  with e have e2: "\<bar>binary64 (S + x) - (S + x)\<bar> \<le> (T + x) / 2 ^ 52" by linarith
  have "(k + 1) * (T + x) = k * T + k * x + T + x" by (simp add: algebra_simps)
  then have "(T + x) / 2 ^ 52 + k * T / 2 ^ 52 \<le> (k + 1) * (T + x) / 2 ^ 52"
    using kx by (simp add: field_simps)
  with e2 IH have "\<bar>binary64 (S + x) - (T + x)\<bar> \<le> (k + 1) * (T + x) / 2 ^ 52" by linarith
  then show ?case
    by (simp add: float_sum_snoc S_def T_def k_def add.commute)
qed


lemma suggest_price_range_float_Some:
  assumes "c \<noteq> 0" and "float_prices d c \<noteq> []"
  shows "suggest_price_range_float fsum d (Some c) =
           Some \<lparr>min_price =
                   max (Min (set (float_prices d c)))
                     (binary64 (binary64 (fsum (float_prices d c) / real (length (float_prices d c)))
                                * binary64 (7 / 10))),
                 max_price =
                   min (Max (set (float_prices d c)))
                     (binary64 (binary64 (fsum (float_prices d c) / real (length (float_prices d c)))
                                * binary64 (13 / 10))),
                 average_price =
                   binary64 (fsum (float_prices d c) / real (length (float_prices d c)))\<rparr>"
proof -
  obtain p ps where ps: "float_prices d c = p # ps"
    using assms(2) by (cases "float_prices d c") auto
  show ?thesis using assms(1)
    by (simp add: suggest_price_range_float_def ps truthy_def Let_def fold_min_Min fold_max_Max)
qed

lemma rounded_mean_close:
  assumes ne: "ps \<noteq> []"
      and nonneg: "\<forall>x \<in> set ps. 0 \<le> x"
      and len: "length ps \<le> 2 ^ 40"
      and acc: "\<bar>S - sum_list ps\<bar> \<le> real (length ps) * sum_list ps / 2 ^ 52"
  shows "\<bar>binary64 (S / real (length ps)) - sum_list ps / real (length ps)\<bar>
           \<le> (real (length ps) + 1) / 2 ^ 52 * (sum_list ps / real (length ps))"
proof -
  define n where "n = real (length ps)"
  define T where "T = sum_list ps"
  define mu where "mu = T / n"
  have n1: "1 \<le> n" using ne by (cases ps) (simp_all add: n_def)
  have "real (length ps) \<le> real (2 ^ 40)" using len by (rule of_nat_mono)
  then have n2: "n \<le> 2 ^ 40" by (simp add: n_def)
  have T: "0 \<le> T" using nonneg by (simp add: T_def sum_list_nonneg)
  have mu: "0 \<le> mu" using T n1 by (simp add: mu_def)
  have Tn: "T = n * mu" using n1 by (simp add: mu_def)
  have acc': "\<bar>S - T\<bar> \<le> n * T / 2 ^ 52" using acc by (simp add: n_def T_def)
  have "n * T \<le> 2 ^ 40 * T" using n2 T by (intro mult_right_mono) simp_all
  then have nT: "n * T / 2 ^ 52 \<le> T" using T by (simp add: mult.commute)
  have S0: "0 \<le> S" and S2: "S \<le> 2 * T" using acc' nT T by linarith+
  have d1: "\<bar>S / n - mu\<bar> \<le> n * mu / 2 ^ 52"
  proof -
    have "\<bar>S / n - mu\<bar> = \<bar>S - T\<bar> / n" using n1 by (simp add: mu_def diff_divide_distrib [symmetric])
    also have "\<dots> \<le> (n * T / 2 ^ 52) / n" using acc' n1 by (intro divide_right_mono) simp_all
    also have "\<dots> = n * mu / 2 ^ 52" using n1 by (simp add: Tn)
    finally show ?thesis .
  qed
  have Sn0: "0 \<le> S / n" using S0 n1 by simp
  have "S / n \<le> 2 * T / n" using S2 n1 by (intro divide_right_mono) simp_all
  then have Sn2: "S / n \<le> 2 * mu" by (simp add: mu_def)
  have "\<bar>binary64 (S / n) - S / n\<bar> \<le> (S / n) / 2 ^ 53"
    using binary64_error[of "S / n"] Sn0 by simp
  moreover have "(S / n) / 2 ^ 53 \<le> mu / 2 ^ 52" using Sn2 by simp
  ultimately have d2: "\<bar>binary64 (S / n) - S / n\<bar> \<le> mu / 2 ^ 52" by linarith
  have "(n + 1) / 2 ^ 52 * mu = n * mu / 2 ^ 52 + mu / 2 ^ 52" by (simp add: field_simps)
  with d1 d2 have "\<bar>binary64 (S / n) - mu\<bar> \<le> (n + 1) / 2 ^ 52 * mu" by linarith
  then show ?thesis by (simp add: n_def mu_def T_def)
qed

subsection \<open>The price range in double precision\<close>

lemma dime_prices: "category_prices dime_db 1 = [1 / 10, 1 / 10, 1 / 10]"
  by (simp add: category_prices_def dime_db_def example_product_def)

lemma negative_prices: "category_prices negative_price_db 1 = [- 10]"
  by (simp add: category_prices_def negative_price_db_def example_product_def)

lemma dime_floats:
  "float_prices dime_db 1 =
     [3602879701896397 / 36028797018963968, 3602879701896397 / 36028797018963968,
      3602879701896397 / 36028797018963968]"
proof -
  have "binary64 (1 / 10) = 3602879701896397 / 36028797018963968" by code_simp
  then show ?thesis by (simp add: float_prices_def dime_prices)
qed

lemma dime_range:
  "suggest_price_range_float float_sum dime_db (Some 1) =
     Some \<lparr>min_price = 3602879701896397 / 36028797018963968,
           max_price = 3602879701896397 / 36028797018963968,
           average_price = 7205759403792795 / 72057594037927936\<rparr>"
proof -
  have avg: "binary64 (float_sum [3602879701896397 / 36028797018963968,
                 3602879701896397 / 36028797018963968, 3602879701896397 / 36028797018963968]
               / real (length [3602879701896397 / 36028797018963968 :: real,
                 3602879701896397 / 36028797018963968, 3602879701896397 / 36028797018963968]))
             = 7205759403792795 / 72057594037927936"
    by code_simp
  have t7: "binary64 (7205759403792795 / 72057594037927936 * binary64 (7 / 10))
              = 1261007895663739 / 18014398509481984"
    by code_simp
  have t13: "binary64 (7205759403792795 / 72057594037927936 * binary64 (13 / 10))
              = 4683743612465317 / 36028797018963968"
    by code_simp
  have c: "(1::int) \<noteq> 0" by simp
  have ne: "float_prices dime_db 1 \<noteq> []" by (simp add: dime_floats)
  show ?thesis
    unfolding suggest_price_range_float_Some[OF c ne] dime_floats avg t7 t13 by simp
qed

lemma negative_floats: "float_prices negative_price_db 1 = [- 10]"
proof -
  have "binary64 (- 10) = - 10" by code_simp
  then show ?thesis by (simp add: float_prices_def negative_prices)
qed

lemma negative_range:
  "suggest_price_range_float float_sum negative_price_db (Some 1) =
     Some \<lparr>min_price = - 7, max_price = - 13, average_price = - 10\<rparr>"
proof -
  have avg: "binary64 (float_sum [- 10] / real (length [- 10 :: real])) = - 10" by code_simp
  have t7: "binary64 (- 10 * binary64 (7 / 10)) = - 7" by code_simp
  have t13: "binary64 (- 10 * binary64 (13 / 10)) = - 13" by code_simp
  have c: "(1::int) \<noteq> 0" by simp
  have ne: "float_prices negative_price_db 1 \<noteq> []" by (simp add: negative_floats)
  show ?thesis
    unfolding suggest_price_range_float_Some[OF c ne] negative_floats avg t7 t13 by simp
qed

lemma dime_range_compensated:
  "suggest_price_range_float compensated_sum dime_db (Some 1) =
     Some \<lparr>min_price = 3602879701896397 / 36028797018963968,
           max_price = 3602879701896397 / 36028797018963968,
           average_price = 7205759403792795 / 72057594037927936\<rparr>"
proof -
  have avg: "binary64 (compensated_sum [3602879701896397 / 36028797018963968,
                 3602879701896397 / 36028797018963968, 3602879701896397 / 36028797018963968]
               / real (length [3602879701896397 / 36028797018963968 :: real,
                 3602879701896397 / 36028797018963968, 3602879701896397 / 36028797018963968]))
             = 7205759403792795 / 72057594037927936"
    by code_simp
  have t7: "binary64 (7205759403792795 / 72057594037927936 * binary64 (7 / 10))
              = 1261007895663739 / 18014398509481984"
    by code_simp
  have t13: "binary64 (7205759403792795 / 72057594037927936 * binary64 (13 / 10))
              = 4683743612465317 / 36028797018963968"
    by code_simp
  have c: "(1::int) \<noteq> 0" by simp
  have ne: "float_prices dime_db 1 \<noteq> []" by (simp add: dime_floats)
  show ?thesis
    unfolding suggest_price_range_float_Some[OF c ne] dime_floats avg t7 t13 by simp
qed

lemma negative_range_compensated:
  "suggest_price_range_float compensated_sum negative_price_db (Some 1) =
     Some \<lparr>min_price = - 7, max_price = - 13, average_price = - 10\<rparr>"
proof -
  have avg: "binary64 (compensated_sum [- 10] / real (length [- 10 :: real])) = - 10"
    by code_simp
  have t7: "binary64 (- 10 * binary64 (7 / 10)) = - 7" by code_simp
  have t13: "binary64 (- 10 * binary64 (13 / 10)) = - 13" by code_simp
  have c: "(1::int) \<noteq> 0" by simp
  have ne: "float_prices negative_price_db 1 \<noteq> []" by (simp add: negative_floats)
  show ?thesis
    unfolding suggest_price_range_float_Some[OF c ne] negative_floats avg t7 t13 by simp
qed

text \<open>
  C9 as stated fails twice. Three prices of 0.10 are summed to 0.30000000000000004, by
  either summation, and the rounded third of that is 0.10000000000000002, above the largest
  price. And nothing keeps a stored price from being negative: for the single price \<open>-10\<close>
  the suggested minimum \<open>-7\<close> lies above the suggested maximum \<open>-13\<close>.
\<close>

theorem price_range_counterexample:
  "category_prices dime_db 1 = [1 / 10, 1 / 10, 1 / 10] \<and>
   float_prices dime_db 1 =
     [3602879701896397 / 36028797018963968, 3602879701896397 / 36028797018963968,
      3602879701896397 / 36028797018963968] \<and>
   suggest_price_range_float float_sum dime_db (Some 1) =
     Some \<lparr>min_price = 3602879701896397 / 36028797018963968,
           max_price = 3602879701896397 / 36028797018963968,
           average_price = 7205759403792795 / 72057594037927936\<rparr> \<and>
   suggest_price_range_float compensated_sum dime_db (Some 1) =
     Some \<lparr>min_price = 3602879701896397 / 36028797018963968,
           max_price = 3602879701896397 / 36028797018963968,
           average_price = 7205759403792795 / 72057594037927936\<rparr> \<and>
   \<not> (7205759403792795 / 72057594037927936 :: real) \<le> 3602879701896397 / 36028797018963968 \<and>
   category_prices negative_price_db 1 = [- 10] \<and>
   suggest_price_range_float float_sum negative_price_db (Some 1) =
     Some \<lparr>min_price = - 7, max_price = - 13, average_price = - 10\<rparr> \<and>
   suggest_price_range_float compensated_sum negative_price_db (Some 1) =
     Some \<lparr>min_price = - 7, max_price = - 13, average_price = - 10\<rparr> \<and>
   \<not> (- 7 :: real) \<le> - 13"
  using dime_prices dime_floats dime_range dime_range_compensated
        negative_prices negative_range negative_range_compensated
  by simp

text \<open>
  C9, amended. For a category id \<open>c \<noteq> 0\<close> with \<open>n \<ge> 1\<close> active priced products, at most
  \<open>2\<^sup>4\<^sup>0\<close> of them and none with a negative price, and a float sum within \<open>n / 2\<^sup>5\<^sup>2\<close>
  (relative) of the exact sum of the float prices, which addition from the left is
  (\<open>float_sum_accuracy\<close>): the average lies between the smallest and the largest float
  price up to the relative rounding error \<open>(n + 1) / 2\<^sup>5\<^sup>2\<close>, and the suggested minimum is
  at most the suggested maximum.
\<close>

theorem price_range_bounds:
  assumes c: "c \<noteq> 0"
      and ne: "category_prices d c \<noteq> []"
      and nonneg: "\<forall>p \<in> set (category_prices d c). 0 \<le> p"
      and len: "length (category_prices d c) \<le> 2 ^ 40"
      and acc: "\<bar>fsum (float_prices d c) - sum_list (float_prices d c)\<bar>
                  \<le> real (length (float_prices d c)) * sum_list (float_prices d c) / 2 ^ 52"
  shows "\<exists>r. suggest_price_range_float fsum d (Some c) = Some r \<and>
             Min (set (float_prices d c)) * (1 - (real (length (float_prices d c)) + 1) / 2 ^ 52)
               \<le> average_price r \<and>
             average_price r
               \<le> Max (set (float_prices d c)) * (1 + (real (length (float_prices d c)) + 1) / 2 ^ 52) \<and>
             min_price r \<le> max_price r"
proof -
  define ps where "ps = float_prices d c"
  define n where "n = real (length ps)"
  define mu where "mu = sum_list ps / n"
  define eps where "eps = (n + 1) / 2 ^ 52"
  define a where "a = binary64 (fsum ps / n)"
  define lo where "lo = Min (set ps)"
  define hi where "hi = Max (set ps)"
  define t7 where "t7 = binary64 (a * binary64 (7 / 10))"
  define t13 where "t13 = binary64 (a * binary64 (13 / 10))"
  have ps_ne: "ps \<noteq> []" using ne by (simp add: ps_def float_prices_def)
  have ps_nonneg: "\<forall>x \<in> set ps. 0 \<le> x"
    using nonneg by (auto simp: ps_def float_prices_def intro: binary64_nonneg)
  have ps_len: "length ps \<le> 2 ^ 40" using len by (simp add: ps_def float_prices_def)
  have n1: "1 \<le> n" using ps_ne by (cases ps) (simp_all add: n_def)
  have "real (length ps) \<le> real (2 ^ 40)" using ps_len by (rule of_nat_mono)
  then have n2: "n \<le> 2 ^ 40" by (simp add: n_def)
  have eps0: "0 \<le> eps" using n1 by (simp add: eps_def)
  have "n + 1 \<le> 2 ^ 41" using n2 by simp
  then have "(n + 1) / 2 ^ 52 \<le> 2 ^ 41 / 2 ^ 52" by (rule divide_right_mono) simp
  then have eps1: "eps \<le> 1 / 1000" by (simp add: eps_def)
  from mean_between[OF ps_ne] have between: "lo \<le> mu" "mu \<le> hi"
    by (simp_all add: lo_def hi_def mu_def n_def)
  have "lo \<in> set ps" unfolding lo_def using ps_ne by (intro Min_in) simp_all
  then have lo0: "0 \<le> lo" using ps_nonneg by blast
  have mu0: "0 \<le> mu" using lo0 between by linarith
  have hi0: "0 \<le> hi" using mu0 between by linarith
  have close: "\<bar>a - mu\<bar> \<le> eps * mu"
    using rounded_mean_close[OF ps_ne ps_nonneg ps_len, of "fsum ps"] acc
    by (simp add: a_def mu_def eps_def n_def ps_def)
  have "eps * mu \<le> 1 / 1000 * mu" using eps1 mu0 by (rule mult_right_mono)
  with close have coarse: "999 / 1000 * mu \<le> a" "a \<le> 1001 / 1000 * mu" by linarith+
  have a0: "0 \<le> a" using coarse mu0 by linarith
  have "(1 - eps) * lo \<le> (1 - eps) * mu" using between eps1 by (intro mult_left_mono) simp_all
  moreover have "(1 - eps) * mu \<le> a"
  proof -
    have "mu - eps * mu \<le> a" using close by linarith
    then show ?thesis by (simp add: algebra_simps)
  qed
  ultimately have low: "lo * (1 - eps) \<le> a" by (simp add: mult.commute)
  have "(1 + eps) * mu \<le> (1 + eps) * hi" using between eps0 by (intro mult_left_mono) simp_all
  moreover have "a \<le> (1 + eps) * mu"
  proof -
    have "a \<le> mu + eps * mu" using close by linarith
    then show ?thesis by (simp add: algebra_simps)
  qed
  ultimately have high: "a \<le> hi * (1 + eps)" by (simp add: mult.commute)
  have "\<bar>binary64 (7 / 10) - 7 / 10\<bar> \<le> (7 / 10) / 2 ^ 53"
    using binary64_error[of "7 / 10"] by simp
  moreover have "(7 / 10 :: real) / 2 ^ 53 \<le> 1 / 100" by simp
  ultimately have c7: "binary64 (7 / 10) \<le> 71 / 100" "0 \<le> binary64 (7 / 10)" by linarith+
  have "\<bar>binary64 (13 / 10) - 13 / 10\<bar> \<le> (13 / 10) / 2 ^ 53"
    using binary64_error[of "13 / 10"] by simp
  moreover have "(13 / 10 :: real) / 2 ^ 53 \<le> 1 / 100" by simp
  ultimately have c13: "129 / 100 \<le> binary64 (13 / 10)" by linarith
  have p7: "0 \<le> a * binary64 (7 / 10)" using a0 c7 by simp
  have q7: "a * binary64 (7 / 10) \<le> a * (71 / 100)" using a0 c7 by (intro mult_left_mono)
  have "\<bar>t7 - a * binary64 (7 / 10)\<bar> \<le> (a * binary64 (7 / 10)) / 2 ^ 53"
    using binary64_error[of "a * binary64 (7 / 10)"] p7 by (simp add: t7_def)
  moreover have "(a * binary64 (7 / 10)) / 2 ^ 53 \<le> a * binary64 (7 / 10) / 1000"
    using p7 by (simp add: field_simps)
  ultimately have t7u: "t7 \<le> 72 / 100 * a" using q7 a0 by linarith
  have q13: "a * (129 / 100) \<le> a * binary64 (13 / 10)" using a0 c13 by (intro mult_left_mono)
  then have p13: "0 \<le> a * binary64 (13 / 10)" using a0 by linarith
  have "\<bar>t13 - a * binary64 (13 / 10)\<bar> \<le> (a * binary64 (13 / 10)) / 2 ^ 53"
    using binary64_error[of "a * binary64 (13 / 10)"] p13 by (simp add: t13_def)
  moreover have "(a * binary64 (13 / 10)) / 2 ^ 53 \<le> a * binary64 (13 / 10) / 1000"
    using p13 by (simp add: field_simps)
  ultimately have t13l: "128 / 100 * a \<le> t13" using q13 a0 by linarith
  have 1: "lo \<le> hi" using between by linarith
  have 2: "lo \<le> t13" using t13l coarse between mu0 by linarith
  have 3: "t7 \<le> hi" using t7u coarse between mu0 by linarith
  have 4: "t7 \<le> t13" using t7u t13l a0 by linarith
  have order: "max lo t7 \<le> min hi t13" using 1 2 3 4 by simp
  have "float_prices d c \<noteq> []" using ps_ne by (simp add: ps_def)
  from suggest_price_range_float_Some[OF c this, of fsum]
    low[unfolded eps_def] high[unfolded eps_def] order
  show ?thesis
    by (simp add: ps_def[symmetric] n_def[symmetric] a_def[symmetric] lo_def[symmetric]
          hi_def[symmetric] t7_def[symmetric] t13_def[symmetric])
qed

lemma scenario_floats: "float_prices scenario_db 1 = [10, 20, 30, 40, 50]"
proof -
  have "binary64 10 = 10" "binary64 20 = 20" "binary64 30 = 30" "binary64 40 = 40"
       "binary64 50 = 50"
    by code_simp+
  then show ?thesis by (simp add: float_prices_def scenario_prices)
qed

lemma scenario_compensated: "compensated_sum [10, 20, 30, 40, 50] = 150"
  by code_simp

theorem price_range_bounds_witness:
  "(1::int) \<noteq> 0 \<and> category_prices scenario_db 1 = [10, 20, 30, 40, 50] \<and>
   float_prices scenario_db 1 = [10, 20, 30, 40, 50] \<and>
   (\<exists>r. suggest_price_range_float float_sum scenario_db (Some 1) = Some r \<and>
        10 * (1 - (5 + 1) / 2 ^ 52) \<le> average_price r \<and>
        average_price r \<le> 50 * (1 + (5 + 1) / 2 ^ 52) \<and>
        min_price r \<le> max_price r) \<and>
   (\<exists>r. suggest_price_range_float compensated_sum scenario_db (Some 1) = Some r \<and>
        10 * (1 - (5 + 1) / 2 ^ 52) \<le> average_price r \<and>
        average_price r \<le> 50 * (1 + (5 + 1) / 2 ^ 52) \<and>
        min_price r \<le> max_price r)"
proof -
  have c: "(1::int) \<noteq> 0" by simp
  have ne: "category_prices scenario_db 1 \<noteq> []" by (simp add: scenario_prices)
  have nonneg: "\<forall>p \<in> set (category_prices scenario_db 1). 0 \<le> p"
    by (simp add: scenario_prices)
  have len: "length (category_prices scenario_db 1) \<le> 2 ^ 40" by (simp add: scenario_prices)
  have fnonneg: "\<forall>x \<in> set (float_prices scenario_db 1). 0 \<le> x"
    by (simp add: scenario_floats)
  have flen: "length (float_prices scenario_db 1) \<le> 2 ^ 51" by (simp add: scenario_floats)
  have acc: "\<bar>float_sum (float_prices scenario_db 1) - sum_list (float_prices scenario_db 1)\<bar>
               \<le> real (length (float_prices scenario_db 1))
                   * sum_list (float_prices scenario_db 1) / 2 ^ 52"
    using fnonneg flen by (rule float_sum_accuracy)
  have acc2: "\<bar>compensated_sum (float_prices scenario_db 1)
                 - sum_list (float_prices scenario_db 1)\<bar>
               \<le> real (length (float_prices scenario_db 1))
                   * sum_list (float_prices scenario_db 1) / 2 ^ 52"
    by (simp add: scenario_floats scenario_compensated)
  have mm: "Min (set (float_prices scenario_db 1)) = 10" "Max (set (float_prices scenario_db 1)) = 50"
           "real (length (float_prices scenario_db 1)) = 5"
    by (simp_all add: scenario_floats)
  from price_range_bounds[where fsum = float_sum, OF c ne nonneg len acc]
       price_range_bounds[where fsum = compensated_sum, OF c ne nonneg len acc2]
  show ?thesis
    unfolding mm using scenario_prices scenario_floats by simp
qed


section \<open>Building and loading the vector index\<close>

lemma dict_set_fresh: "k \<notin> fst ` set d \<Longrightarrow> dict_set k v d = d @ [(k, v)]"
  by (induction d) auto

lemma fold_dict_set_distinct:
  "distinct (map fst (acc @ kvs)) \<Longrightarrow>
     fold (\<lambda>(k, v) d. dict_set k v d) kvs acc = acc @ kvs"
proof (induction kvs arbitrary: acc)
  case Nil
  then show ?case by simp
next
  case (Cons kv kvs)
  obtain k v where kv: "kv = (k, v)" by (cases kv)
  from Cons.prems kv have fresh: "k \<notin> fst ` set acc" by auto
  from Cons.prems kv have "distinct (map fst ((acc @ [(k, v)]) @ kvs))" by simp
  from Cons.IH[OF this] show ?case using kv fresh by (simp add: dict_set_fresh)
qed

lemma dict_of_pairs_distinct: "distinct (map fst kvs) \<Longrightarrow> dict_of_pairs kvs = kvs"
  using fold_dict_set_distinct[of "[]" kvs] by (simp add: dict_of_pairs_def)

lemma zip_two_maps: "zip (map f xs) (map g xs) = map (\<lambda>x. (f x, g x)) xs"
  by (induction xs) auto

lemma save_vector_db_fields:
  "product_embeddings (save_vector_db s) = product_embeddings s"
  "index (save_vector_db s) = index s"
  "db (save_vector_db s) = db s"
  by (auto simp: save_vector_db_def Let_def split: option.splits)

lemma build_vector_db_result:
  assumes "distinct (map p_id (products (db self)))"
  shows "product_embeddings (build_vector_db ext self) =
           map (\<lambda>p. (p_id p, normalize_L2 ext (encode ext (product_text p))))
             (filter (\<lambda>p. p_status p = Active) (products (db self)))"
    and "index (build_vector_db ext self) =
           (if filter (\<lambda>p. p_status p = Active) (products (db self)) = [] then None
            else Some (map (\<lambda>p. normalize_L2 ext (encode ext (product_text p)))
                         (filter (\<lambda>p. p_status p = Active) (products (db self)))))"
proof -
  let ?act = "filter (\<lambda>p. p_status p = Active) (products (db self))"
  let ?emb = "\<lambda>p. normalize_L2 ext (encode ext (product_text p))"
  have d: "distinct (map p_id ?act)" using assms by (rule distinct_map_filter)
  have z: "zip (map p_id ?act) (map (normalize_L2 ext) (map (encode ext) (map product_text ?act)))
           = map (\<lambda>p. (p_id p, ?emb p)) ?act"
    using zip_two_maps[of p_id ?act ?emb] by (simp add: comp_def)
  have "distinct (map fst (map (\<lambda>p. (p_id p, ?emb p)) ?act))" using d by (simp add: comp_def)
  then have dp: "dict_of_pairs (map (\<lambda>p. (p_id p, ?emb p)) ?act) = map (\<lambda>p. (p_id p, ?emb p)) ?act"
    by (rule dict_of_pairs_distinct)
  show "product_embeddings (build_vector_db ext self) = map (\<lambda>p. (p_id p, ?emb p)) ?act"
    by (simp add: build_vector_db_def Let_def save_vector_db_fields z dp del: map_map)
  show "index (build_vector_db ext self) =
          (if ?act = [] then None else Some (map ?emb ?act))"
    by (simp add: build_vector_db_def Let_def save_vector_db_fields comp_def)
qed

text \<open>
  C8. After a rebuild over a catalog with unique product ids, the keys of the embedding map
  are the active products' ids in catalog order, the index holds as many vectors as the map
  has keys, and the vector at position \<open>i\<close> is the one stored under the \<open>i\<close>-th key (for an
  empty active catalog the map is empty and there is no index). Both fields are assigned from
  the catalog alone: their previous contents do not influence the result.
\<close>

theorem build_vector_db_aligned:
  assumes "distinct (map p_id (products (db self)))"
  shows "map fst (product_embeddings (build_vector_db ext self)) =
           map p_id (filter (\<lambda>p. p_status p = Active) (products (db self))) \<and>
         (case index (build_vector_db ext self) of
            None \<Rightarrow> product_embeddings (build_vector_db ext self) = []
          | Some ix \<Rightarrow>
              length ix = length (product_embeddings (build_vector_db ext self)) \<and>
              (\<forall>i < length ix. ix ! i = snd (product_embeddings (build_vector_db ext self) ! i))) \<and>
         product_embeddings (build_vector_db ext (self\<lparr>product_embeddings := pe, index := ix0\<rparr>)) =
           product_embeddings (build_vector_db ext self) \<and>
         index (build_vector_db ext (self\<lparr>product_embeddings := pe, index := ix0\<rparr>)) =
           index (build_vector_db ext self)"
proof -
  have a: "distinct (map p_id (products (db (self\<lparr>product_embeddings := pe, index := ix0\<rparr>))))"
    using assms by simp
  show ?thesis
    by (simp add: build_vector_db_result[OF assms] build_vector_db_result[OF a] comp_def)
qed

lemma example_build:
  "build_vector_db example_ext
     \<lparr>db = example_db, product_embeddings = [], index = None,
      vector_file = Absent, index_file = Absent\<rparr> =
     \<lparr>db = example_db, product_embeddings = [(1, [4]), (2, [4]), (3, [4])],
      index = Some [[4], [4], [4]],
      vector_file = Holds [(1, [4]), (2, [4]), (3, [4])],
      index_file = Holds [[4], [4], [4]]\<rparr>"
  by (simp add: build_vector_db_def example_ext_def example_db_def example_product_def
        product_text_def dict_of_pairs_def save_vector_db_def Let_def)

theorem build_vector_db_aligned_witness:
  "distinct (map p_id (products example_db)) \<and>
   map fst (product_embeddings (build_vector_db example_ext example_service)) = [1, 2, 3] \<and>
   index (build_vector_db example_ext example_service) =
     Some (map snd (product_embeddings (build_vector_db example_ext example_service)))"
proof -
  have d: "distinct (map p_id (products (db example_service)))"
    by (simp add: example_service_def example_db_def example_product_def)
  have e: "product_embeddings (build_vector_db example_ext example_service) = [(1, [4]), (2, [4]), (3, [4])]"
          "index (build_vector_db example_ext example_service) = Some [[4], [4], [4]]"
    by (simp_all add: build_vector_db_def example_service_def example_ext_def example_db_def example_product_def
        product_text_def dict_of_pairs_def save_vector_db_def Let_def)
  from build_vector_db_aligned[OF d, of example_ext] d e show ?thesis
    by (simp add: example_service_def)
qed

text \<open>
  C5 as stated fails: with both index files present and the embedding file not loadable,
  the exception of the load leaves the constructor and no rebuild takes place; and in the
  classification service, with the category model missing and the tag model not loadable,
  the load of the tag model raises before the build is reached.
\<close>

theorem unreadable_artifact_counterexample:
  "exists_file (Unreadable :: (int \<times> vector) list artifact) \<and>
   load_or_create_vector_db example_ext example_db Unreadable (Holds [[1, 0], [0, 1]]) =
     Inl LoadError \<and>
   load_classification_models example_fit example_db Absent Unreadable = Inl LoadError"
  by (simp add: load_or_create_vector_db_def load_classification_models_def exists_file_def
        load_file_def)

text \<open>
  C5, amended. When one of the two index files is missing, the constructor of the
  recommendation service runs the rebuild from the live catalog and its outcome is the rebuilt
  service; when both files are present and one cannot be loaded, the load error propagates
  and nothing is rebuilt. In the classification service a model file that is present and
  cannot be loaded makes the load error propagate, also when the other file is missing;
  when a file is missing and no present file fails to load, the constructor runs the build
  from the live catalog and its outcome is the build's outcome, which is the training error
  when the training raises.
\<close>

theorem missing_artifact_rebuilds:
  "(vf = Absent \<or> xf = Absent \<longrightarrow>
      load_or_create_vector_db ext d vf xf =
        Inr (build_vector_db ext
               \<lparr>db = d, product_embeddings = [], index = None,
                vector_file = vf, index_file = xf\<rparr>)) \<and>
   (vf \<noteq> Absent \<and> xf \<noteq> Absent \<and> (vf = Unreadable \<or> xf = Unreadable) \<longrightarrow>
      load_or_create_vector_db ext d vf xf = Inl LoadError) \<and>
   (cf = Unreadable \<or> tf = Unreadable \<longrightarrow>
      load_classification_models fit d cf tf = Inl LoadError) \<and>
   ((cf = Absent \<and> tf \<noteq> Unreadable) \<or> (tf = Absent \<and> cf \<noteq> Unreadable) \<longrightarrow>
      load_classification_models fit d cf tf =
        build_classification_models fit
          \<lparr>cs_db = d,
           category_classifier = (case cf of Holds c \<Rightarrow> Some c | _ \<Rightarrow> None),
           tag_classifier = (case tf of Holds m \<Rightarrow> Some m | _ \<Rightarrow> None),
           category_model_file = cf, tag_model_file = tf\<rparr>)"
  by (cases vf; cases xf; cases cf; cases tf)
     (simp_all add: load_or_create_vector_db_def load_classification_models_def
        exists_file_def load_file_def)

lemma example_build_classification:
  "build_classification_models fit
     \<lparr>cs_db = example_db, category_classifier = None, tag_classifier = None,
      category_model_file = Absent, tag_model_file = Absent\<rparr> =
     (case fit [''item'', ''item'', ''item''] [1, 1, 2] of
        Inl e \<Rightarrow> Inl e
      | Inr trained \<Rightarrow>
          Inr \<lparr>cs_db = example_db, category_classifier = Some trained, tag_classifier = None,
               category_model_file = Holds trained, tag_model_file = Absent\<rparr>)"
  by (simp add: build_classification_models_def example_db_def example_product_def
        title_description_def save_classification_models_def Let_def List.map_filter_def
      split: sum.splits)

theorem missing_artifact_rebuilds_witness:
  "load_or_create_vector_db example_ext example_db Absent Absent =
     Inr \<lparr>db = example_db, product_embeddings = [(1, [4]), (2, [4]), (3, [4])],
          index = Some [[4], [4], [4]],
          vector_file = Holds [(1, [4]), (2, [4]), (3, [4])],
          index_file = Holds [[4], [4], [4]]\<rparr> \<and>
   load_or_create_vector_db example_ext example_db (Holds [(1, [4])]) Unreadable = Inl LoadError \<and>
   load_classification_models example_fit example_db Absent Unreadable = Inl LoadError \<and>
   load_classification_models example_fit example_db Absent Absent =
     Inr \<lparr>cs_db = example_db, category_classifier = Some half_failing_classifier,
          tag_classifier = None, category_model_file = Holds half_failing_classifier,
          tag_model_file = Absent\<rparr> \<and>
   load_classification_models failing_fit example_db Absent Absent = Inl LibraryError"
  using missing_artifact_rebuilds[of Absent Absent example_ext example_db Absent Absent]
        missing_artifact_rebuilds[of "Holds [(1, [4])]" Unreadable example_ext example_db
          Absent Absent]
        missing_artifact_rebuilds[of Absent Absent example_ext example_db Absent Unreadable
          example_fit]
        missing_artifact_rebuilds[of Absent Absent example_ext example_db Absent Absent
          example_fit]
        missing_artifact_rebuilds[of Absent Absent example_ext example_db Absent Absent
          failing_fit]
  by (simp add: example_build example_build_classification example_fit_def failing_fit_def)


section \<open>Classification\<close>

text \<open>
  C6. The tags of a product that is not active are counted: in a category whose only product
  is a draft, \<^verbatim>\<open>_get_category_tags\<close> returns that draft's tag.
\<close>

theorem get_category_tags_counts_inactive:
  "filter (\<lambda>p. p_status p = Active) (products draft_only_db) = [] \<and>
   get_category_tags draft_only_db 1 = [''secret'']"
  by (simp add: get_category_tags_def draft_only_db_def example_product_def Counter_def
        most_common_def order_by_desc_def)

text \<open>
  When there is no classifier, or \<open>predict\<close> raises, the result carries the default category
  1, the name Unknown and confidence 0.
\<close>

lemma classify_product_degrades:
  assumes "category_classifier self = None \<or>
           (\<exists>c e. category_classifier self = Some c \<and> predict c (title_description t desc) = Inl e)"
  shows "category_id (classify_product self t desc) = 1 \<and>
         category_name (classify_product self t desc) = ''Unknown'' \<and>
         confidence (classify_product self t desc) = 0"
  using assms
  by (auto simp: classify_product_def predict_category_def truthy_def Let_def)

text \<open>
  C7. When \<open>predict\<close> succeeds and \<open>predict_proba\<close> raises, the exception is swallowed and
  the confidence stays 0, but the category already assigned is kept: the result names
  category 2, not the default.
\<close>

theorem classify_product_keeps_category:
  "predict_proba_max half_failing_classifier ''bag'' = Inl LibraryError \<and>
   classify_product (example_classification_service (Some half_failing_classifier)) ''bag'' None =
     \<lparr>category_id = 2, category_name = ''Shoes'', confidence = 0,
      suggested_tags = [''bag''],
      suggested_price_range = Some \<lparr>min_price = 30, max_price = 30, average_price = 30\<rparr>\<rparr>"
  by (simp add: classify_product_def predict_category_def truthy_def Let_def
        half_failing_classifier_def example_classification_service_def example_db_def
        example_product_def title_description_def generate_tags_def extract_keywords_def
        lower_def lower_char_def is_word_def is_space_def stop_words_def
        get_category_tags_def Counter_def most_common_def order_by_desc_def
        suggest_price_range_def category_prices_def)


section \<open>No duplicate product ids\<close>

lemma subseq_distinct: "subseq xs ys \<Longrightarrow> distinct ys \<Longrightarrow> distinct xs"
proof (induction rule: list_emb.induct)
  case (list_emb_Cons2 x y xs ys)
  then show ?case using list_emb_set[of "(=)" xs ys] by auto
qed auto

lemma map_err_ids:
  assumes "\<And>x y. f x = Inr y \<Longrightarrow> product_id y = g x"
  shows "map_err f xs = Inr ys \<Longrightarrow> map product_id ys = map g xs"
proof (induction xs arbitrary: ys)
  case Nil
  then show ?case by simp
next
  case (Cons x xs)
  then show ?case using assms
    by (auto split: sum.splits)
qed

lemma mset_insert_desc: "mset (insert_desc k x ys) = add_mset x (mset ys)"
  by (induction ys) auto

lemma mset_order_by_desc: "mset (order_by_desc k xs) = mset xs"
  by (induction xs) (auto simp: order_by_desc_def mset_insert_desc)

lemma distinct_order_by_desc:
  "distinct (map f (order_by_desc k xs)) = distinct (map f xs)"
proof -
  have "mset (map f (order_by_desc k xs)) = mset (map f xs)"
    using mset_order_by_desc[of k xs] by (metis mset_map)
  then show ?thesis by (rule mset_eq_imp_distinct_iff)
qed

lemma sql_limit_distinct:
  "sql_limit n xs = Inr rows \<Longrightarrow> distinct (map f xs) \<Longrightarrow> distinct (map f rows)"
  by (auto simp: sql_limit_def take_map[symmetric] split: if_splits)

lemma distinct_py_take: "distinct (map f xs) \<Longrightarrow> distinct (map f (py_take n xs))"
  by (auto simp: py_take_def take_map[symmetric])

lemma rec_ids:
  "category_rec p = Inr r \<Longrightarrow> product_id r = p_id p"
  "popular_rec p = Inr r \<Longrightarrow> product_id r = p_id p"
  "new_arrival_rec p = Inr r \<Longrightarrow> product_id r = p_id p"
  "trending_rec row = Inr r \<Longrightarrow> product_id r = p_id (fst row)"
  by (auto simp: category_rec_def popular_rec_def new_arrival_rec_def trending_rec_def
           split: sum.splits)

lemma dedup_loop_distinct:
  "distinct (map product_id acc) \<Longrightarrow> product_id ` set acc \<subseteq> seen \<Longrightarrow>
     distinct (map product_id (dedup_loop seen rs acc))"
proof (induction rs arbitrary: seen acc)
  case Nil
  then show ?case by simp
next
  case (Cons r rs)
  show ?case
  proof (cases "product_id r \<in> seen")
    case True
    then show ?thesis using Cons by simp
  next
    case False
    have "distinct (map product_id (acc @ [r]))" using Cons.prems False by auto
    moreover have "product_id ` set (acc @ [r]) \<subseteq> insert (product_id r) seen"
      using Cons.prems by auto
    ultimately show ?thesis using Cons.IH False by simp
  qed
qed

lemma dedup_loop_first:
  "r \<in> set (dedup_loop seen rs acc) \<Longrightarrow>
     r \<in> set acc \<or>
     (product_id r \<notin> seen \<and> find (\<lambda>x. product_id x = product_id r) rs = Some r)"
proof (induction rs arbitrary: seen acc)
  case Nil
  then show ?case by simp
next
  case (Cons a rs)
  show ?case
  proof (cases "product_id a \<in> seen")
    case True
    with Cons.prems have "r \<in> set (dedup_loop seen rs acc)" by simp
    from Cons.IH[OF this] show ?thesis using True by auto
  next
    case False
    with Cons.prems have "r \<in> set (dedup_loop (insert (product_id a) seen) rs (acc @ [a]))"
      by simp
    from Cons.IH[OF this] show ?thesis using False by auto
  qed
qed

lemma trending_rows_distinct: "distinct (map (\<lambda>row. p_id (fst row)) (trending_rows d w cid))"
proof -
  define rows where "rows = filter (\<lambda>(p, item, ord).
                    w \<le> o_created_at ord \<and> qualifying (o_status ord) \<and>
                    p_status p = Active \<and>
                    (if truthy cid then Some (p_category_id p) = cid else True)) (joined d)"
  have hd_id: "p_id (fst (hd (filter (\<lambda>(p, item, ord). p_id p = i) rows))) = i"
    if "i \<in> set (map (\<lambda>(p, item, ord). p_id p) rows)" for i
  proof -
    from that have ne: "filter (\<lambda>(p, item, ord). p_id p = i) rows \<noteq> []"
      by (auto simp: filter_empty_conv)
    then have "hd (filter (\<lambda>(p, item, ord). p_id p = i) rows)
                 \<in> set (filter (\<lambda>(p, item, ord). p_id p = i) rows)"
      by (rule hd_in_set)
    then show ?thesis by auto
  qed
  have "map (\<lambda>i. p_id (fst (hd (filter (\<lambda>(p, item, ord). p_id p = i) rows))))
          (remdups (map (\<lambda>(p, item, ord). p_id p) rows)) =
        remdups (map (\<lambda>(p, item, ord). p_id p) rows)"
    by (rule map_idI) (simp add: hd_id)
  then have "map (\<lambda>row. p_id (fst row)) (trending_rows d w cid) =
          remdups (map (\<lambda>(p, item, ord). p_id p) rows)"
    unfolding trending_rows_def rows_def[symmetric] Let_def
    by (simp add: comp_def)
  then show ?thesis by simp
qed

lemma nth_within: "0 \<le> i \<Longrightarrow> i < int (length xs) \<Longrightarrow> py_nth xs i = Inr (xs ! nat i)"
  by (simp add: py_nth_def)

lemma reported_ids:
  assumes "list_all (\<lambda>idx. - 1 \<le> idx) (map snd hits)"
  shows "map snd (reported ids hits) =
           map (\<lambda>idx. ids ! nat idx)
             (filter (\<lambda>idx. idx \<noteq> - 1 \<and> idx < int (length ids)) (map snd hits))"
  using assms
proof (induction hits)
  case Nil
  then show ?case by (simp add: reported_def)
next
  case (Cons h hits)
  obtain sc idx where h: "h = (sc, idx)" by (cases h)
  from Cons.prems h have ge: "- 1 \<le> idx" by simp
  from Cons have IH: "map snd (reported ids hits) =
           map (\<lambda>idx. ids ! nat idx)
             (filter (\<lambda>idx. idx \<noteq> - 1 \<and> idx < int (length ids)) (map snd hits))" by simp
  show ?case
  proof (cases "idx = - 1 \<or> int (length ids) \<le> idx")
    case True
    then show ?thesis using h IH by (auto simp: reported_Cons)
  next
    case False
    with ge have "0 \<le> idx" "idx < int (length ids)" by auto
    from nth_within[OF this] show ?thesis using h IH False by (simp add: reported_Cons)
  qed
qed

lemma reported_distinct:
  assumes "valid_labels hits" and "distinct ids"
  shows "distinct (map snd (reported ids hits))"
proof -
  let ?keep = "filter (\<lambda>idx. idx \<noteq> - 1 \<and> idx < int (length ids)) (map snd hits)"
  from assms(1) have all: "list_all (\<lambda>idx. - 1 \<le> idx) (map snd hits)"
    and dist: "distinct (filter (\<lambda>idx. idx \<noteq> - 1) (map snd hits))"
    by (auto simp: valid_labels_def)
  have "?keep = filter (\<lambda>idx. idx < int (length ids)) (filter (\<lambda>idx. idx \<noteq> - 1) (map snd hits))"
    by simp
  moreover have "distinct (filter (\<lambda>idx. idx < int (length ids))
                   (filter (\<lambda>idx. idx \<noteq> - 1) (map snd hits)))"
    using dist by (rule distinct_filter)
  ultimately have dk: "distinct ?keep" by simp
  have ge: "- 1 \<le> idx" if "idx \<in> set (map snd hits)" for idx
    using all that unfolding list_all_iff by blast
  have rng: "\<forall>idx \<in> set ?keep. 0 \<le> idx \<and> idx < int (length ids)"
  proof
    fix idx assume k: "idx \<in> set ?keep"
    then have "idx \<in> set (map snd hits)" "idx \<noteq> - 1" "idx < int (length ids)"
      unfolding set_filter by blast+
    with ge[of idx] show "0 \<le> idx \<and> idx < int (length ids)" by linarith
  qed
  have "inj_on (\<lambda>idx. ids ! nat idx) (set ?keep)"
  proof (rule inj_onI)
    fix a b assume a: "a \<in> set ?keep" and b: "b \<in> set ?keep"
      and eq: "ids ! nat a = ids ! nat b"
    from rng a have ra: "0 \<le> a \<and> a < int (length ids)" by blast
    from rng b have rb: "0 \<le> b \<and> b < int (length ids)" by blast
    from ra rb have ab: "nat a < length ids" "nat b < length ids" "0 \<le> a" "0 \<le> b"
      by linarith+
    from eq nth_eq_iff_index_eq[OF assms(2) ab(1,2)] have "nat a = nat b" by simp
    with ab(3,4) show "a = b" by simp
  qed
  with dk have "distinct (map (\<lambda>idx. ids ! nat idx) ?keep)" by (simp add: distinct_map)
  then show ?thesis by (simp add: reported_ids[OF all])
qed

lemma similar_loop_distinct:
  assumes "similar_loop d ids pid hits [] = Inr out" and "valid_labels hits" and "distinct ids"
  shows "distinct (map product_id out)"
proof -
  from similar_loop_spec[OF assms(1)] have
    "subseq (map (\<lambda>r. (score r, product_id r)) out) (reported ids hits)" by auto
  then have "subseq (map snd (map (\<lambda>r. (score r, product_id r)) out)) (map snd (reported ids hits))"
    by (rule subseq_map)
  then have "subseq (map product_id out) (map snd (reported ids hits))" by (simp add: comp_def)
  then show ?thesis using reported_distinct[OF assms(2,3)] by (rule subseq_distinct)
qed

lemma listing_distinct:
  assumes "distinct (map p_id (products d))"
      and "sql_limit limit (order_by_desc k (filter P (products d))) = Inr rows"
      and "map_err f rows = Inr recs"
      and "\<And>x y. f x = Inr y \<Longrightarrow> product_id y = p_id x"
  shows "distinct (map product_id recs)"
proof -
  have "distinct (map p_id (filter P (products d)))"
    using assms(1) by (rule distinct_map_filter)
  then have "distinct (map p_id (order_by_desc k (filter P (products d))))"
    by (simp add: distinct_order_by_desc)
  with assms(2) have "distinct (map p_id rows)" by (rule sql_limit_distinct)
  moreover have "map product_id recs = map p_id rows"
    using assms(4) assms(3) by (rule map_err_ids)
  ultimately show ?thesis by simp
qed

lemma popular_distinct:
  assumes "distinct (map p_id (products (db self)))"
      and "get_popular_products self limit = Inr recs"
  shows "distinct (map product_id recs)"
proof -
  from assms(2) obtain rows where
    "sql_limit limit (order_by_desc (\<lambda>p. (p_sales_count p, p_rating p))
        (filter (\<lambda>p. p_status p = Active) (products (db self)))) = Inr rows"
    "map_err popular_rec rows = Inr recs"
    by (auto simp: get_popular_products_def split: sum.splits)
  with assms(1) show ?thesis by (rule listing_distinct) (rule rec_ids)
qed

lemma category_distinct:
  assumes "distinct (map p_id (products (db self)))"
      and "get_category_recommendations self cid limit = Inr recs"
  shows "distinct (map product_id recs)"
proof -
  from assms(2) obtain rows where
    "sql_limit limit (order_by_desc (\<lambda>p. (p_rating p, p_sales_count p))
        (filter (\<lambda>p. p_category_id p = cid \<and> p_status p = Active) (products (db self)))) = Inr rows"
    "map_err category_rec rows = Inr recs"
    by (auto simp: get_category_recommendations_def split: sum.splits)
  with assms(1) show ?thesis by (rule listing_distinct) (rule rec_ids)
qed

lemma new_arrivals_distinct:
  assumes "distinct (map p_id (products (db self)))"
      and "get_new_arrivals self limit ocid = Inr recs"
  shows "distinct (map product_id recs)"
proof -
  from assms(2) obtain rows where
    "sql_limit limit (order_by_desc p_created_at
        (filter (\<lambda>p. p_status p = Active \<and>
                      (if truthy ocid then Some (p_category_id p) = ocid else True))
           (products (db self)))) = Inr rows"
    "map_err new_arrival_rec rows = Inr recs"
    by (auto simp: get_new_arrivals_def split: sum.splits)
  with assms(1) show ?thesis by (rule listing_distinct) (rule rec_ids)
qed

lemma trending_distinct:
  assumes "get_trending_products self now limit ocid = Inr recs"
  shows "distinct (map product_id recs)"
proof -
  from assms obtain rows where
    l: "sql_limit limit (order_by_desc snd (trending_rows (db self) (now - 604800) ocid)) = Inr rows"
    and m: "map_err trending_rec rows = Inr recs"
    by (auto simp: get_trending_products_def Let_def split: sum.splits)
  have "distinct (map (\<lambda>row. p_id (fst row))
          (order_by_desc snd (trending_rows (db self) (now - 604800) ocid)))"
    by (simp add: distinct_order_by_desc trending_rows_distinct)
  with l have "distinct (map (\<lambda>row. p_id (fst row)) rows)" by (rule sql_limit_distinct)
  moreover have "map product_id recs = map (\<lambda>row. p_id (fst row)) rows"
    using rec_ids(4) m by (rule map_err_ids)
  ultimately show ?thesis by simp
qed

lemma similar_distinct:
  assumes "distinct (map fst (product_embeddings self))"
      and "\<forall>e ix hits. map_of (product_embeddings self) pid = Some e \<and> index self = Some ix \<and>
             index_search ext ix e (limit + 1) = Inr hits \<longrightarrow> valid_labels hits"
      and "get_similar_products ext self pid limit = Inr recs"
  shows "distinct (map product_id recs)"
proof (cases "map_of (product_embeddings self) pid")
  case None
  with assms(3) show ?thesis by (simp add: get_similar_products_def)
next
  case (Some e)
  show ?thesis
  proof (cases "index self")
    case None
    with assms(3) Some show ?thesis by (simp add: get_similar_products_def)
  next
    case ix: (Some ix)
    from assms(3) Some ix obtain hits where
      hits: "index_search ext ix e (limit + 1) = Inr hits"
      by (cases "index_search ext ix e (limit + 1)") (auto simp: get_similar_products_def)
    from assms(3) Some ix hits obtain sims where
      sims: "similar_loop (db self) (map fst (product_embeddings self)) pid hits [] = Inr sims"
      and recs: "recs = py_take limit sims"
      by (cases "similar_loop (db self) (map fst (product_embeddings self)) pid hits []")
         (auto simp: get_similar_products_def)
    from assms(2) Some ix hits have "valid_labels hits" by blast
    with sims have "distinct (map product_id sims)" using assms(1)
      by (rule similar_loop_distinct)
    then show ?thesis unfolding recs by (rule distinct_py_take)
  qed
qed

lemma user_distinct:
  assumes "distinct (map p_id (products (db self)))"
      and "get_user_recommendations ext self user_id limit = Inr recs"
  shows "distinct (map product_id recs)"
proof (cases "purchased_products (db self) user_id = []")
  case True
  with assms(2) have "get_popular_products self limit = Inr recs"
    by (simp add: get_user_recommendations_def)
  with assms(1) show ?thesis by (rule popular_distinct)
next
  case False
  with assms(2) obtain sims where
    "recs = py_take limit (dedup_loop (set (purchased_products (db self) user_id)) sims [])"
    by (auto simp: get_user_recommendations_def Let_def split: sum.splits)
  moreover have "distinct (map product_id
      (dedup_loop (set (purchased_products (db self) user_id)) sims []))"
    by (rule dedup_loop_distinct) simp_all
  ultimately show ?thesis by (simp add: distinct_py_take)
qed

lemma personalized_distinct:
  assumes "get_personalized_recommendations ext self user_id limit = Inr recs"
  shows "distinct (map product_id recs)"
proof -
  from assms obtain all_recs where "recs = py_take limit (dedup_loop {} all_recs [])"
    by (auto simp: get_personalized_recommendations_def split: sum.splits)
  moreover have "distinct (map product_id (dedup_loop {} all_recs []))"
    by (rule dedup_loop_distinct) simp_all
  ultimately show ?thesis by (simp add: distinct_py_take)
qed

lemma personalized_first_wins:
  assumes "get_user_recommendations ext self user_id (limit div 2) = Inr user_recs"
      and "get_popular_products self (limit div 2) = Inr popular_recs"
      and "get_personalized_recommendations ext self user_id limit = Inr recs"
      and "r \<in> set recs"
  shows "find (\<lambda>x. product_id x = product_id r) (user_recs @ popular_recs) = Some r"
proof -
  from assms(1,2,3) have "recs = py_take limit (dedup_loop {} (user_recs @ popular_recs) [])"
    by (simp add: get_personalized_recommendations_def)
  with assms(4) set_py_take[of limit "dedup_loop {} (user_recs @ popular_recs) []"]
  have "r \<in> set (dedup_loop {} (user_recs @ popular_recs) [])" by blast
  from dedup_loop_first[OF this] show ?thesis by simp
qed

lemma user_first_wins:
  assumes "purchased_products (db self) user_id \<noteq> []"
      and "collect_similar ext self (purchased_products (db self) user_id) [] = Inr sims"
      and "get_user_recommendations ext self user_id limit = Inr recs"
      and "r \<in> set recs"
  shows "product_id r \<notin> set (purchased_products (db self) user_id) \<and>
         find (\<lambda>x. product_id x = product_id r) sims = Some r"
proof -
  from assms(1,2,3) have
    "recs = py_take limit (dedup_loop (set (purchased_products (db self) user_id)) sims [])"
    by (simp add: get_user_recommendations_def)
  with assms(4)
    set_py_take[of limit "dedup_loop (set (purchased_products (db self) user_id)) sims []"]
  have "r \<in> set (dedup_loop (set (purchased_products (db self) user_id)) sims [])" by blast
  from dedup_loop_first[OF this] show ?thesis by simp
qed

text \<open>
  C4. Over a catalog with unique product ids, an embedding map with unique keys and an index
  search that reports no position twice, no strategy returns two entries with the same
  product id: similar items, user history, category top, popular, trending, new arrivals and
  personalized. Where lists are merged, every returned entry is the first entry with its
  product id in the merged list, so it carries the first writer's reason; the user-history
  list in addition never contains a purchased id.
\<close>

theorem recommendations_have_distinct_ids:
  assumes pk: "distinct (map p_id (products (db self)))"
      and keys: "distinct (map fst (product_embeddings self))"
      and labels: "\<forall>e ix hits. map_of (product_embeddings self) pid = Some e \<and>
                     index self = Some ix \<and> index_search ext ix e (limit + 1) = Inr hits
                     \<longrightarrow> valid_labels hits"
  shows "(\<forall>recs. get_similar_products ext self pid limit = Inr recs
            \<longrightarrow> distinct (map product_id recs)) \<and>
         (\<forall>recs. get_user_recommendations ext self user_id limit = Inr recs
            \<longrightarrow> distinct (map product_id recs)) \<and>
         (\<forall>recs. get_category_recommendations self cid limit = Inr recs
            \<longrightarrow> distinct (map product_id recs)) \<and>
         (\<forall>recs. get_popular_products self limit = Inr recs
            \<longrightarrow> distinct (map product_id recs)) \<and>
         (\<forall>recs. get_trending_products self now limit ocid = Inr recs
            \<longrightarrow> distinct (map product_id recs)) \<and>
         (\<forall>recs. get_new_arrivals self limit ocid = Inr recs
            \<longrightarrow> distinct (map product_id recs)) \<and>
         (\<forall>recs. get_personalized_recommendations ext self user_id limit = Inr recs
            \<longrightarrow> distinct (map product_id recs)) \<and>
         (\<forall>user_recs popular_recs recs.
            get_user_recommendations ext self user_id (limit div 2) = Inr user_recs \<and>
            get_popular_products self (limit div 2) = Inr popular_recs \<and>
            get_personalized_recommendations ext self user_id limit = Inr recs
            \<longrightarrow> (\<forall>r \<in> set recs.
                   find (\<lambda>x. product_id x = product_id r) (user_recs @ popular_recs) = Some r)) \<and>
         (\<forall>sims recs.
            purchased_products (db self) user_id \<noteq> [] \<and>
            collect_similar ext self (purchased_products (db self) user_id) [] = Inr sims \<and>
            get_user_recommendations ext self user_id limit = Inr recs
            \<longrightarrow> (\<forall>r \<in> set recs.
                   product_id r \<notin> set (purchased_products (db self) user_id) \<and>
                   find (\<lambda>x. product_id x = product_id r) sims = Some r))"
proof (intro conjI allI impI ballI)
  fix recs assume "get_similar_products ext self pid limit = Inr recs"
  with keys labels show "distinct (map product_id recs)" by (rule similar_distinct)
next
  fix recs assume "get_user_recommendations ext self user_id limit = Inr recs"
  with pk show "distinct (map product_id recs)" by (rule user_distinct)
next
  fix recs assume "get_category_recommendations self cid limit = Inr recs"
  with pk show "distinct (map product_id recs)" by (rule category_distinct)
next
  fix recs assume "get_popular_products self limit = Inr recs"
  with pk show "distinct (map product_id recs)" by (rule popular_distinct)
next
  fix recs assume "get_trending_products self now limit ocid = Inr recs"
  then show "distinct (map product_id recs)" by (rule trending_distinct)
next
  fix recs assume "get_new_arrivals self limit ocid = Inr recs"
  with pk show "distinct (map product_id recs)" by (rule new_arrivals_distinct)
next
  fix recs assume "get_personalized_recommendations ext self user_id limit = Inr recs"
  then show "distinct (map product_id recs)" by (rule personalized_distinct)
next
  fix user_recs popular_recs recs r
  assume "get_user_recommendations ext self user_id (limit div 2) = Inr user_recs \<and>
          get_popular_products self (limit div 2) = Inr popular_recs \<and>
          get_personalized_recommendations ext self user_id limit = Inr recs"
     and "r \<in> set recs"
  then show "find (\<lambda>x. product_id x = product_id r) (user_recs @ popular_recs) = Some r"
    using personalized_first_wins by blast
next
  fix sims recs r
  assume a: "purchased_products (db self) user_id \<noteq> [] \<and>
          collect_similar ext self (purchased_products (db self) user_id) [] = Inr sims \<and>
          get_user_recommendations ext self user_id limit = Inr recs"
     and r: "r \<in> set recs"
  from a r user_first_wins[of self user_id ext sims limit recs r]
  show "product_id r \<notin> set (purchased_products (db self) user_id)" by blast
  from a r user_first_wins[of self user_id ext sims limit recs r]
  show "find (\<lambda>x. product_id x = product_id r) sims = Some r" by blast
qed

lemma example_similar_5:
  "get_similar_products example_ext example_service 1 5 =
     Inr [example_rec 2 20 1 ''Similar product'']"
  by (simp add: get_similar_products_def example_ext_def example_service_def example_db_def
        example_product_def example_rec_def py_take_def py_nth_def similar_rec_def
        py_float_def first_image_def upt_rec)

lemma example_user_100:
  "get_user_recommendations example_ext example_service 100 2 =
     Inr [example_rec 2 20 1 ''Similar product'']"
proof -
  have p: "purchased_products (db example_service) 100 = [1]"
    by (simp add: example_service_def example_purchases)
  have m: "map_of (product_embeddings example_service) 1 \<noteq> None"
    by (simp add: example_service_def)
  show ?thesis
    by (simp add: get_user_recommendations_def p m example_similar_5 example_rec_def py_take_def)
qed

lemma example_personalized:
  "get_personalized_recommendations example_ext example_service 100 4 =
     Inr [example_rec 2 20 1 ''Similar product'', example_rec 3 30 6 ''Popular product'']"
  by (simp add: get_personalized_recommendations_def example_user_100 example_popular
        example_rec_def py_take_def)

theorem recommendations_have_distinct_ids_witness:
  "distinct (map p_id (products (db example_service))) \<and>
   distinct (map fst (product_embeddings example_service)) \<and>
   index_search example_ext [[1, 0], [0, 1]] [1, 0] (4 + 1) = Inr [(1, 0), (1, 1)] \<and>
   valid_labels [(1, 0), (1, 1)] \<and>
   get_personalized_recommendations example_ext example_service 100 4 =
     Inr [example_rec 2 20 1 ''Similar product'', example_rec 3 30 6 ''Popular product''] \<and>
   distinct (map product_id
     [example_rec 2 20 1 ''Similar product'', example_rec 3 30 6 ''Popular product'']) \<and>
   find (\<lambda>x. product_id x = 2)
     ([example_rec 2 20 1 ''Similar product''] @
      [example_rec 2 20 7 ''Popular product'', example_rec 3 30 6 ''Popular product'']) =
     Some (example_rec 2 20 1 ''Similar product'')"
proof -
  have pk: "distinct (map p_id (products (db example_service)))"
    by (simp add: example_service_def example_db_def example_product_def)
  have keys: "distinct (map fst (product_embeddings example_service))"
    by (simp add: example_service_def)
  have search: "index_search example_ext [[1, 0], [0, 1]] [1, 0] (4 + 1) = Inr [(1, 0), (1, 1)]"
    by (simp add: example_ext_def upt_rec)
  have valid: "valid_labels [(1, 0), (1, 1)]"
    by (simp add: valid_labels_def)
  have labels: "\<forall>e ix hits. map_of (product_embeddings example_service) 1 = Some e \<and>
                  index example_service = Some ix \<and>
                  index_search example_ext ix e (4 + 1) = Inr hits \<longrightarrow> valid_labels hits"
    using search valid by (auto simp: example_service_def)
  have two: "(4::int) div 2 = 2" by simp
  from recommendations_have_distinct_ids[OF pk keys labels, of 100 1 0 None]
  have d: "distinct (map product_id
     [example_rec 2 20 1 ''Similar product'', example_rec 3 30 6 ''Popular product''])"
    and f: "\<forall>r \<in> set [example_rec 2 20 1 ''Similar product'', example_rec 3 30 6 ''Popular product''].
       find (\<lambda>x. product_id x = product_id r)
         ([example_rec 2 20 1 ''Similar product''] @
          [example_rec 2 20 7 ''Popular product'', example_rec 3 30 6 ''Popular product'']) = Some r"
    using example_personalized example_user_100 example_popular by (simp_all only: two) blast+
  from f have "find (\<lambda>x. product_id x = product_id (example_rec 2 20 1 ''Similar product''))
         ([example_rec 2 20 1 ''Similar product''] @
          [example_rec 2 20 7 ''Popular product'', example_rec 3 30 6 ''Popular product'']) =
        Some (example_rec 2 20 1 ''Similar product'')" by simp
  then have "find (\<lambda>x. product_id x = 2)
         ([example_rec 2 20 1 ''Similar product''] @
          [example_rec 2 20 7 ''Popular product'', example_rec 3 30 6 ''Popular product'']) =
        Some (example_rec 2 20 1 ''Similar product'')" by (simp add: example_rec_def)
  with pk keys search valid d show ?thesis using example_personalized by simp
qed

end
